theory Spec2Isabelle
  imports Main "HOL-Library.AList"
begin

section \<open>JavaScript values used by the port-binding code\<close>

text \<open>
  Strings are \<^typ>\<open>string\<close>; only the ASCII range is modelled, which covers port numbers,
  protocol tokens and IP literals.  A JavaScript \<open>number\<close> that holds a port is an
  \<^typ>\<open>int\<close>; \<open>NaN\<close> (the result of a failed \<open>parseInt\<close>) and \<open>undefined\<close> are the
  value \<open>None\<close> of an option type.  Every \<open>throw\<close> of the source is an \<open>Inl\<close> result.
\<close>

datatype error =
    Error string      \<comment> \<open>\<open>new Error(message)\<close>\<close>
  | TypeError         \<comment> \<open>a method call on \<open>undefined\<close>\<close>
  | InvalidPortSpec   \<comment> \<open>raised by the port normaliser (spec 4.1)\<close>

text \<open>\<open>String.prototype.toLowerCase\<close> on ASCII: \<open>A\<close>..\<open>Z\<close> move to \<open>a\<close>..\<open>z\<close>.\<close>

definition toLowerChar :: "char \<Rightarrow> char" where
  "toLowerChar c =
     (let n = (of_char c :: nat) in if 65 \<le> n \<and> n \<le> 90 then char_of (n + 32) else c)"

definition toLowerCase :: "string \<Rightarrow> string" where
  "toLowerCase s = map toLowerChar s"

text \<open>\<open>s.includes("/")\<close> and \<open>s.split("/")\<close>.\<close>

definition includes_slash :: "string \<Rightarrow> bool" where
  "includes_slash s = (CHR ''/'' \<in> set s)"

fun split_slash :: "string \<Rightarrow> string list" where
  "split_slash [] = [[]]"
| "split_slash (c # cs) =
     (if c = CHR ''/'' then [] # split_slash cs
      else (case split_slash cs of
              seg # segs \<Rightarrow> (c # seg) # segs
            | [] \<Rightarrow> [[c]]))"

text \<open>
  The array destructuring \<open>const [a, b] = s.split("/")\<close>: the first two segments;
  \<open>b\<close> is \<open>undefined\<close> when the string has no \<open>/\<close>, and later segments are dropped.
\<close>

definition destructure2 :: "string list \<Rightarrow> string \<times> string option" where
  "destructure2 segs =
     (case segs of
        [] \<Rightarrow> ([], None)
      | [a] \<Rightarrow> (a, None)
      | a # b # _ \<Rightarrow> (a, Some b))"

text \<open>The template literal \<open>`${n}`\<close> of an integer: its decimal digits, with a sign.\<close>

definition digit_char :: "nat \<Rightarrow> char" where
  "digit_char d = ''0123456789'' ! (d mod 10)"

fun nat_toString :: "nat \<Rightarrow> string" where
  "nat_toString n =
     (if n < 10 then [digit_char n] else nat_toString (n div 10) @ [digit_char (n mod 10)])"

declare nat_toString.simps [simp del]

definition number_toString :: "int \<Rightarrow> string" where
  "number_toString i =
     (if i < 0 then CHR ''-'' # nat_toString (nat (- i)) else nat_toString (nat i))"

text \<open>
  \<open>parseInt(s, 10)\<close>: leading white space is skipped, one sign is accepted, then the
  longest run of decimal digits is read; with no digit the result is \<open>NaN\<close>.
\<close>

definition is_space :: "char \<Rightarrow> bool" where
  "is_space c = (c \<in> set [CHR 0x09, CHR 0x0A, CHR 0x0B, CHR 0x0C, CHR 0x0D, CHR '' ''])"

definition is_digit :: "char \<Rightarrow> bool" where
  "is_digit c = (c \<in> set ''0123456789'')"

definition digit_val :: "char \<Rightarrow> nat" where
  "digit_val c = (of_char c :: nat) - 48"

definition digits_val :: "string \<Rightarrow> nat" where
  "digits_val ds = foldl (\<lambda>a c. 10 * a + digit_val c) 0 ds"

definition parseInt :: "string \<Rightarrow> int option" where
  "parseInt s =
     (let t = dropWhile is_space s;
          neg = (case t of c # _ \<Rightarrow> c = CHR ''-'' | [] \<Rightarrow> False);
          u = (case t of c # r \<Rightarrow> if c = CHR ''-'' \<or> c = CHR ''+'' then r else t | [] \<Rightarrow> t);
          ds = takeWhile is_digit u
      in if ds = [] then None
         else Some (if neg then - int (digits_val ds) else int (digits_val ds)))"

text \<open>A value is falsy when it is \<open>undefined\<close> or the number \<open>0\<close>.\<close>

definition falsy :: "int option \<Rightarrow> bool" where
  "falsy v = (case v of None \<Rightarrow> True | Some n \<Rightarrow> n = 0)"

text \<open>
  A JavaScript \<open>Map\<close> keeps its entries in insertion order: \<open>set\<close> on a present key
  replaces the value in place, on a new key it appends.
\<close>

definition Map_get :: "('k \<times> 'v) list \<Rightarrow> 'k \<Rightarrow> 'v option" where
  "Map_get m k = map_of m k"

definition Map_has :: "('k \<times> 'v) list \<Rightarrow> 'k \<Rightarrow> bool" where
  "Map_has m k = (map_of m k \<noteq> None)"

definition Map_set :: "('k \<times> 'v) list \<Rightarrow> 'k \<Rightarrow> 'v \<Rightarrow> ('k \<times> 'v) list" where
  "Map_set m k v = AList.update k v m"

section \<open>The bound-port registry (class \<open>BoundPorts\<close>)\<close>

text \<open>The private field \<open>ports: Map<string, number>\<close> is the whole state of the class.\<close>

type_synonym BoundPorts = "(string \<times> int) list"

text \<open>A parameter of type \<open>number | string\<close>.\<close>

datatype port_arg = Num int | Str string

text \<open>The default parameter \<open>protocol: string = "tcp"\<close>.\<close>

definition protocol_or_default :: "string option \<Rightarrow> string" where
  "protocol_or_default protocol = (case protocol of None \<Rightarrow> ''tcp'' | Some p \<Rightarrow> p)"

text \<open>
  In \<open>getBinding\<close> and \<open>setBinding\<close> the result \<open>TypeError\<close> stands for the call
  \<open>portProtocol.toLowerCase()\<close> on an \<open>undefined\<close> second segment.  Both methods split
  only a key that includes \<open>/\<close>, so the second segment is always there.
\<close>

definition getBinding :: "BoundPorts \<Rightarrow> port_arg \<Rightarrow> string option \<Rightarrow> error + int" where
  "getBinding ports port protocol =
     (let normalizedProtocol = toLowerCase (protocol_or_default protocol);
          key = (case port of
                   Str s \<Rightarrow> s
                 | Num n \<Rightarrow> number_toString n @ [CHR ''/''] @ normalizedProtocol);
          binding = Map_get ports key;
          retried =
            (case port of
               Str s \<Rightarrow>
                 if falsy binding \<and> includes_slash s then
                   (case destructure2 (split_slash s) of
                      (portNumber, Some portProtocol) \<Rightarrow>
                        Inr (Map_get ports (portNumber @ [CHR ''/''] @ toLowerCase portProtocol))
                    | (portNumber, None) \<Rightarrow> Inl TypeError)
                 else Inr binding
             | Num n \<Rightarrow> Inr binding)
      in case retried of
           Inl e \<Rightarrow> Inl e
         | Inr None \<Rightarrow> Inl (Error (''No port binding found for :'' @ key))
         | Inr (Some b) \<Rightarrow>
             if b = 0 then Inl (Error (''No port binding found for :'' @ key)) else Inr b)"

definition getFirstBinding :: "BoundPorts \<Rightarrow> error + int" where
  "getFirstBinding ports =
     (case ports of
        [] \<Rightarrow> Inl (Error ''No port bindings found'')
      | (k, firstBinding) # _ \<Rightarrow>
          if firstBinding = 0 then Inl (Error ''No port bindings found'') else Inr firstBinding)"

definition setBinding :: "BoundPorts \<Rightarrow> port_arg \<Rightarrow> int \<Rightarrow> string option \<Rightarrow> error + BoundPorts" where
  "setBinding ports key val protocol =
     (let normalizedProtocol = toLowerCase (protocol_or_default protocol)
      in case key of
           Str s \<Rightarrow>
             if includes_slash s then
               (case destructure2 (split_slash s) of
                  (portNumber, Some portProtocol) \<Rightarrow>
                    Inr (Map_set ports (portNumber @ [CHR ''/''] @ toLowerCase portProtocol) val)
                | (portNumber, None) \<Rightarrow> Inl TypeError)
             else Inr (Map_set ports s val)
         | Num n \<Rightarrow> Inr (Map_set ports (number_toString n @ [CHR ''/''] @ normalizedProtocol) val))"

section \<open>The host-port resolver\<close>

text \<open>
  \<open>net.isIP\<close> belongs to the Node.js runtime, not to this repository.  It is modelled
  by the regular expressions of Node's \<open>lib/internal/net.js\<close>: the result is \<open>4\<close> for a
  dotted-decimal IPv4 literal, \<open>6\<close> for an IPv6 literal (with an optional zone), and
  \<open>0\<close> for every other string.
\<close>

datatype regex =
    Class "char list"       \<comment> \<open>one character out of a set\<close>
  | Cat regex regex
  | Or regex regex
  | Empty

fun times :: "nat \<Rightarrow> regex \<Rightarrow> regex" where   \<comment> \<open>\<open>r{n}\<close>\<close>
  "times 0 r = Empty"
| "times (Suc n) r = Cat r (times n r)"

fun upto_times :: "nat \<Rightarrow> regex \<Rightarrow> regex" where   \<comment> \<open>\<open>r{0,n}\<close>\<close>
  "upto_times 0 r = Empty"
| "upto_times (Suc n) r = Or Empty (Cat r (upto_times n r))"

definition between :: "nat \<Rightarrow> nat \<Rightarrow> regex \<Rightarrow> regex" where   \<comment> \<open>\<open>r{m,n}\<close>\<close>
  "between m n r = Cat (times m r) (upto_times (n - m) r)"

text \<open>All the suffixes that remain after the expression has matched a prefix.\<close>

fun residuals :: "regex \<Rightarrow> string \<Rightarrow> string list" where
  "residuals (Class cs) s = (case s of [] \<Rightarrow> [] | x # xs \<Rightarrow> if x \<in> set cs then [xs] else [])"
| "residuals (Cat a b) s = concat (map (residuals b) (residuals a s))"
| "residuals (Or a b) s = residuals a s @ residuals b s"
| "residuals Empty s = [s]"

definition digit :: regex where
  "digit = Class ''0123456789''"

definition v4Seg :: regex where
  "v4Seg =
     Or (Cat (Class ''2'') (Cat (Class ''5'') (Class ''012345'')))
    (Or (Cat (Class ''2'') (Cat (Class ''01234'') digit))
    (Or (Cat (Class ''1'') (Cat digit digit))
    (Or (Cat (Class ''123456789'') digit)
        digit)))"

definition v4Str :: regex where
  "v4Str = Cat (times 3 (Cat v4Seg (Class ''.''))) v4Seg"

definition v6Seg :: regex where
  "v6Seg = between 1 4 (Class ''0123456789abcdefABCDEF'')"

definition colon :: regex where
  "colon = Class '':''"

definition v6Str :: regex where
  "v6Str =
     Or (Cat (times 7 (Cat v6Seg colon)) (Or v6Seg colon))
    (Or (Cat (times 6 (Cat v6Seg colon)) (Or v4Str (Or (Cat colon v6Seg) colon)))
    (Or (Cat (times 5 (Cat v6Seg colon))
           (Or (Cat colon v4Str) (Or (between 1 2 (Cat colon v6Seg)) colon)))
    (Or (Cat (times 4 (Cat v6Seg colon))
           (Or (Cat (between 0 1 (Cat colon v6Seg)) (Cat colon v4Str))
           (Or (between 1 3 (Cat colon v6Seg)) colon)))
    (Or (Cat (times 3 (Cat v6Seg colon))
           (Or (Cat (between 0 2 (Cat colon v6Seg)) (Cat colon v4Str))
           (Or (between 1 4 (Cat colon v6Seg)) colon)))
    (Or (Cat (times 2 (Cat v6Seg colon))
           (Or (Cat (between 0 3 (Cat colon v6Seg)) (Cat colon v4Str))
           (Or (between 1 5 (Cat colon v6Seg)) colon)))
    (Or (Cat (times 1 (Cat v6Seg colon))
           (Or (Cat (between 0 4 (Cat colon v6Seg)) (Cat colon v4Str))
           (Or (between 1 6 (Cat colon v6Seg)) colon)))
        (Cat colon
           (Or (Cat (between 0 5 (Cat colon v6Seg)) (Cat colon v4Str))
           (Or (between 1 7 (Cat colon v6Seg)) colon)))))))))"

text \<open>The optional zone \<open>(?:%[0-9a-zA-Z-.:]{1,})?\<close> and the end of the input.\<close>

definition zone_or_end :: "string \<Rightarrow> bool" where
  "zone_or_end rest =
     (case rest of
        [] \<Rightarrow> True
      | c # z \<Rightarrow> c = CHR ''%'' \<and> z \<noteq> [] \<and>
          list_all (\<lambda>x. x \<in> set ''0123456789abcdefghijklmnopqrstuvwxyzABCDEFGHIJKLMNOPQRSTUVWXYZ-.:'') z)"

definition isIPv4 :: "string \<Rightarrow> bool" where
  "isIPv4 s = list_ex (\<lambda>rest. rest = []) (residuals v4Str s)"

definition isIPv6 :: "string \<Rightarrow> bool" where
  "isIPv6 s = list_ex zone_or_end (residuals v6Str s)"

definition isIP :: "string \<Rightarrow> nat" where
  "isIP s = (if isIPv4 s then 4 else if isIPv6 s then 6 else 0)"

text \<open>
  \<open>HostIp\<close> is declared in the container-runtime module; the resolver reads its
  \<open>family\<close> field only, which is the number \<open>4\<close> or \<open>6\<close>.
\<close>

datatype IpFamily = IPv4 | IPv6

record HostIp =
  family :: IpFamily

definition family_number :: "IpFamily \<Rightarrow> nat" where
  "family_number f = (case f of IPv4 \<Rightarrow> 4 | IPv6 \<Rightarrow> 6)"

record HostPortBinding =
  hostIp :: string
  hostPort :: int

type_synonym HostPortBindings = "HostPortBinding list"

definition isDualStackIp :: "HostPortBindings \<Rightarrow> bool" where
  "isDualStackIp hostPortBindings =
     (length hostPortBindings = 1 \<and> hostIp (hostPortBindings ! 0) = [])"

text \<open>The callback of \<open>hostPortBindings.find\<close>.\<close>

definition parsesAs :: "IpFamily \<Rightarrow> HostPortBinding \<Rightarrow> bool" where
  "parsesAs f b = (isIP (hostIp b) = family_number f)"

text \<open>The \<open>for (const { family } of hostIps)\<close> loop, with the \<open>throw\<close> that follows it.\<close>

fun resolveFamilies :: "HostIp list \<Rightarrow> HostPortBindings \<Rightarrow> error + int" where
  "resolveFamilies [] hostPortBindings = Inl (Error ''No host port found for host IP'')"
| "resolveFamilies (h # hostIps) hostPortBindings =
     (case find (parsesAs (family h)) hostPortBindings of
        Some hostPortBinding \<Rightarrow> Inr (hostPort hostPortBinding)
      | None \<Rightarrow> resolveFamilies hostIps hostPortBindings)"

definition resolveHostPortBinding :: "HostIp list \<Rightarrow> HostPortBindings \<Rightarrow> error + int" where
  "resolveHostPortBinding hostIps hostPortBindings =
     (if isDualStackIp hostPortBindings then Inr (hostPort (hostPortBindings ! 0))
      else resolveFamilies hostIps hostPortBindings)"

section \<open>Port declarations\<close>

text \<open>
  A caller's port declaration: a bare number, a string, or an object with the fields
  \<open>container\<close>, \<open>host\<close> (optional) and \<open>protocol\<close> (optional).
\<close>

datatype PortWithOptionalBinding =
    PortNumber int
  | PortString string
  | PortObject int "int option" "string option"

text \<open>
  Modelled from the spec: the port specification normaliser, that is the functions
  \<open>getContainerPort\<close> and \<open>getProtocol\<close> of the module \<open>utils/port\<close>, which is not among
  the sources.  Following section 4.1: a bare integer has protocol \<open>tcp\<close>; a string
  without \<open>/\<close> is a port number in string form with protocol \<open>tcp\<close>; a string with \<open>/\<close>
  is split once at the first \<open>/\<close> and its right-hand side, lower-cased, is the
  protocol; an object gives its container port and its protocol, lower-cased, or
  \<open>tcp\<close>.  Normalisation fails with \<open>InvalidPortSpec\<close> only when the container port is
  not a positive integer.
\<close>

definition positive_port :: "int \<Rightarrow> error + int" where
  "positive_port n = (if 0 < n then Inr n else Inl InvalidPortSpec)"

definition decimal :: "string \<Rightarrow> int option" where
  "decimal s = (if s \<noteq> [] \<and> list_all is_digit s then Some (int (digits_val s)) else None)"

definition getContainerPort :: "PortWithOptionalBinding \<Rightarrow> error + int" where
  "getContainerPort port =
     (case port of
        PortNumber n \<Rightarrow> positive_port n
      | PortString s \<Rightarrow>
          (case decimal (takeWhile (\<lambda>c. c \<noteq> CHR ''/'') s) of
             None \<Rightarrow> Inl InvalidPortSpec
           | Some n \<Rightarrow> positive_port n)
      | PortObject container host protocol \<Rightarrow> positive_port container)"

definition getProtocol :: "PortWithOptionalBinding \<Rightarrow> string" where
  "getProtocol port =
     (case port of
        PortNumber n \<Rightarrow> ''tcp''
      | PortString s \<Rightarrow>
          if includes_slash s then toLowerCase (tl (dropWhile (\<lambda>c. c \<noteq> CHR ''/'') s))
          else ''tcp''
      | PortObject container host protocol \<Rightarrow> toLowerCase (protocol_or_default protocol))"

section \<open>Filtering a registry and building it from an inspection\<close>

text \<open>
  The \<open>forEach\<close> that fills \<open>containerPortsWithProtocol: Map<number, string>\<close>; a later
  declaration of the same container port overwrites the protocol of an earlier one.
\<close>

fun containerPortsWithProtocol_of ::
  "PortWithOptionalBinding list \<Rightarrow> (int \<times> string) list \<Rightarrow> error + (int \<times> string) list" where
  "containerPortsWithProtocol_of [] containerPortsWithProtocol = Inr containerPortsWithProtocol"
| "containerPortsWithProtocol_of (port # ports) containerPortsWithProtocol =
     (case getContainerPort port of
        Inl e \<Rightarrow> Inl e
      | Inr containerPort \<Rightarrow>
          containerPortsWithProtocol_of ports
            (Map_set containerPortsWithProtocol containerPort (getProtocol port)))"

text \<open>The test of the \<open>if\<close> in the loop over the registry's entries.\<close>

definition filter_keeps :: "(int \<times> string) list \<Rightarrow> string \<Rightarrow> bool" where
  "filter_keeps containerPortsWithProtocol internalPortWithProtocol =
     (case destructure2 (split_slash internalPortWithProtocol) of
        (internalPortStr, protocol) \<Rightarrow>
          (case parseInt internalPortStr of
             None \<Rightarrow> False
           | Some internalPort \<Rightarrow>
               Map_has containerPortsWithProtocol internalPort \<and>
               map_option toLowerCase (Map_get containerPortsWithProtocol internalPort)
                 = map_option toLowerCase protocol))"

fun filter_loop ::
  "(int \<times> string) list \<Rightarrow> (string \<times> int) list \<Rightarrow> BoundPorts \<Rightarrow> error + BoundPorts" where
  "filter_loop containerPortsWithProtocol [] boundPorts = Inr boundPorts"
| "filter_loop containerPortsWithProtocol ((internalPortWithProtocol, hostPortNumber) # entries) boundPorts =
     (if filter_keeps containerPortsWithProtocol internalPortWithProtocol then
        (case setBinding boundPorts (Str internalPortWithProtocol) hostPortNumber None of
           Inl e \<Rightarrow> Inl e
         | Inr boundPorts' \<Rightarrow> filter_loop containerPortsWithProtocol entries boundPorts')
      else filter_loop containerPortsWithProtocol entries boundPorts)"

definition filter_ports :: "BoundPorts \<Rightarrow> PortWithOptionalBinding list \<Rightarrow> error + BoundPorts" where
  "filter_ports this ports =
     (case containerPortsWithProtocol_of ports [] of
        Inl e \<Rightarrow> Inl e
      | Inr containerPortsWithProtocol \<Rightarrow> filter_loop containerPortsWithProtocol this [])"

text \<open>
  \<open>InspectResult\<close> is declared in the types module; the code here reads its \<open>ports\<close>
  field only: an object from \<open>"port/protocol"\<close> keys to raw binding lists, kept as the
  list of its entries in the order \<open>Object.entries\<close> gives them.
\<close>

record InspectResult =
  ports :: "(string \<times> HostPortBindings) list"

fun fromInspectResult_loop ::
  "HostIp list \<Rightarrow> (string \<times> HostPortBindings) list \<Rightarrow> BoundPorts \<Rightarrow> error + BoundPorts" where
  "fromInspectResult_loop hostIps [] boundPorts = Inr boundPorts"
| "fromInspectResult_loop hostIps ((containerPortWithProtocol, hostBindings) # entries) boundPorts =
     (case resolveHostPortBinding hostIps hostBindings of
        Inl e \<Rightarrow> Inl e
      | Inr hostPortNumber \<Rightarrow>
          (case setBinding boundPorts (Str containerPortWithProtocol) hostPortNumber None of
             Inl e \<Rightarrow> Inl e
           | Inr boundPorts' \<Rightarrow> fromInspectResult_loop hostIps entries boundPorts'))"

definition fromInspectResult :: "HostIp list \<Rightarrow> InspectResult \<Rightarrow> error + BoundPorts" where
  "fromInspectResult hostIps inspectResult =
     fromInspectResult_loop hostIps (ports inspectResult) []"

section \<open>The readiness poller\<close>

record 'raw Result =
  inspectResult :: 'raw
  mappedInspectResult :: InspectResult

text \<open>\<open>Array.prototype.every\<close> with a callback that may throw: it stops at the first
  element that fails or throws.\<close>

fun every :: "('a \<Rightarrow> error + bool) \<Rightarrow> 'a list \<Rightarrow> error + bool" where
  "every f [] = Inr True"
| "every f (x # xs) =
     (case f x of
        Inl e \<Rightarrow> Inl e
      | Inr ok \<Rightarrow> if ok then every f xs else Inr False)"

text \<open>The callback of \<open>ports.every\<close>: is this wanted port exposed in the snapshot?\<close>

definition portExposed :: "InspectResult \<Rightarrow> PortWithOptionalBinding \<Rightarrow> error + bool" where
  "portExposed mapped exposedPort =
     (case getContainerPort exposedPort of
        Inl e \<Rightarrow> Inl e
      | Inr containerPort \<Rightarrow>
          (let protocol = getProtocol exposedPort;
               portKey = number_toString containerPort @ [CHR ''/''] @ protocol
           in Inr (case map_of (ports mapped) portKey of
                     None \<Rightarrow> False
                   | Some bindings \<Rightarrow> 0 < length bindings)))"

text \<open>The predicate handed to the retry loop: one tick's verdict on one snapshot.\<close>

definition allPortsExposed :: "PortWithOptionalBinding list \<Rightarrow> 'raw Result \<Rightarrow> error + bool" where
  "allPortsExposed wantedPorts result =
     every (portExposed (mappedInspectResult result)) wantedPorts"

text \<open>
  Modelled from the spec: the retry loop \<open>IntervalRetry.retryUntil\<close> of the common
  module, which is not among the sources.  Following section 4.4: the first tick is
  immediate; a tick calls \<open>fn\<close> and applies the predicate to what it returned; when
  the predicate fails and the timeout has elapsed the loop stops with the value of
  \<open>onTimeout\<close>, otherwise it waits for the fixed interval of 250 ms and ticks again.
  Time comes from an injected source: \<open>cost n\<close> is the time in milliseconds that call
  number \<open>n\<close> of \<open>fn\<close> takes.  The first component of the result counts the calls of
  \<open>fn\<close>.
\<close>

datatype ('t, 'u) retried = Returned 't | TimedOut 'u | Raised error

function retryUntil_from ::
  "(nat \<Rightarrow> error + 't) \<Rightarrow> ('t \<Rightarrow> error + bool) \<Rightarrow> 'u \<Rightarrow> nat \<Rightarrow> (nat \<Rightarrow> nat)
     \<Rightarrow> nat \<Rightarrow> nat \<Rightarrow> nat \<times> ('t, 'u) retried" where
  "retryUntil_from fn predicate onTimeout timeoutMs cost attempt elapsed =
     (case fn attempt of
        Inl e \<Rightarrow> (Suc attempt, Raised e)
      | Inr result \<Rightarrow>
          (case predicate result of
             Inl e \<Rightarrow> (Suc attempt, Raised e)
           | Inr ok \<Rightarrow>
               if ok then (Suc attempt, Returned result)
               else if timeoutMs \<le> elapsed + cost attempt then (Suc attempt, TimedOut onTimeout)
               else retryUntil_from fn predicate onTimeout timeoutMs cost
                      (Suc attempt) (elapsed + cost attempt + 250)))"
  by pat_completeness auto
termination
  by (relation "measure (\<lambda>(fn, predicate, onTimeout, timeoutMs, cost, attempt, elapsed).
        timeoutMs - elapsed)") auto

declare retryUntil_from.simps [simp del]

text \<open>\<open>new IntervalRetry(250).retryUntil(fn, predicate, onTimeout, timeout)\<close>: the loop
  starts with call number \<open>0\<close> at time \<open>0\<close>.\<close>

definition retryUntil ::
  "(nat \<Rightarrow> error + 't) \<Rightarrow> ('t \<Rightarrow> error + bool) \<Rightarrow> 'u \<Rightarrow> nat \<Rightarrow> (nat \<Rightarrow> nat)
     \<Rightarrow> nat \<times> ('t, 'u) retried" where
  "retryUntil fn predicate onTimeout timeoutMs cost =
     retryUntil_from fn predicate onTimeout timeoutMs cost 0 0"

text \<open>The default parameter \<open>timeout = 10_000\<close>.\<close>

definition timeout_or_default :: "nat option \<Rightarrow> nat" where
  "timeout_or_default timeout = (case timeout of None \<Rightarrow> 10000 | Some t \<Rightarrow> t)"

text \<open>
  One run of \<open>inspectContainerUntilPortsExposed\<close>: how often \<open>inspectFn\<close> was called,
  what \<open>log.error\<close> received (the message and the container identifier), and the
  value returned or the error thrown.  Call number \<open>n\<close> of \<open>inspectFn\<close> returns
  \<open>inspectFn n\<close>; \<open>mapInspectResult\<close> is a parameter.
\<close>

record 'raw PollRun =
  inspectCalls :: nat
  errorLog :: "(string \<times> string) list"
  outcome :: "error + 'raw Result"

definition inspectContainerUntilPortsExposed ::
  "(nat \<Rightarrow> error + 'raw) \<Rightarrow> ('raw \<Rightarrow> InspectResult) \<Rightarrow> PortWithOptionalBinding list \<Rightarrow> string
     \<Rightarrow> nat option \<Rightarrow> (nat \<Rightarrow> nat) \<Rightarrow> 'raw PollRun" where
  "inspectContainerUntilPortsExposed inspectFn mapInspectResult wantedPorts containerId timeout cost =
     (let message = ''Container did not expose all ports after starting''
      in case retryUntil
                (\<lambda>attempt. case inspectFn attempt of
                    Inl e \<Rightarrow> Inl e
                  | Inr r \<Rightarrow> Inr \<lparr>inspectResult = r, mappedInspectResult = mapInspectResult r\<rparr>)
                (allPortsExposed wantedPorts)
                ((message, containerId), Error message)
                (timeout_or_default timeout)
                cost of
           (calls, Returned result) \<Rightarrow>
             \<lparr>inspectCalls = calls, errorLog = [], outcome = Inr result\<rparr>
         | (calls, TimedOut (logged, err)) \<Rightarrow>
             \<lparr>inspectCalls = calls, errorLog = [logged], outcome = Inl err\<rparr>
         | (calls, Raised e) \<Rightarrow>
             \<lparr>inspectCalls = calls, errorLog = [], outcome = Inl e\<rparr>)"

text \<open>
  The time, counted from the start of the loop, at which the timeout is checked after
  call number \<open>n\<close>: the calls so far and one interval of 250 ms between two calls.
\<close>

definition tick_time :: "(nat \<Rightarrow> nat) \<Rightarrow> nat \<Rightarrow> nat" where
  "tick_time cost n = (\<Sum>i\<le>n. cost i) + 250 * n"

text \<open>
  The verdict of tick number \<open>n\<close> of the poller: the loop calls \<open>inspectFn\<close>, maps what
  it returned, and applies the predicate to this one fresh snapshot.
\<close>

definition tick_verdict ::
  "(nat \<Rightarrow> error + 'raw) \<Rightarrow> ('raw \<Rightarrow> InspectResult) \<Rightarrow> PortWithOptionalBinding list \<Rightarrow> nat
     \<Rightarrow> error + bool" where
  "tick_verdict inspectFn mapInspectResult wantedPorts n =
     (case inspectFn n of
        Inl e \<Rightarrow> Inl e
      | Inr raw \<Rightarrow>
          allPortsExposed wantedPorts
            \<lparr>inspectResult = raw, mappedInspectResult = mapInspectResult raw\<rparr>)"

section \<open>Invariants of the registry\<close>

text \<open>
  The data model of the registry (spec section 3): every stored host port is a valid
  port in \<open>[1, 65535]\<close>, and the protocol part of a composite key is lower-case.  In a
  key that contains \<open>/\<close>, everything from the first \<open>/\<close> on is lower-case: this is what
  \<open>setBinding\<close> writes.
\<close>

definition valid_host_ports :: "BoundPorts \<Rightarrow> bool" where
  "valid_host_ports reg = list_all (\<lambda>(k, v). 1 \<le> v \<and> v \<le> 65535) reg"

definition lower_after_slash :: "string \<Rightarrow> bool" where
  "lower_after_slash k =
     (toLowerCase (dropWhile (\<lambda>c. c \<noteq> CHR ''/'') k) = dropWhile (\<lambda>c. c \<noteq> CHR ''/'') k)"

definition keys_normalized :: "BoundPorts \<Rightarrow> bool" where
  "keys_normalized reg = list_all (\<lambda>(k, v). lower_after_slash k) reg"

text \<open>
  The entry under a key as the test \<open>if (!binding)\<close> sees it: a missing entry is
  \<open>undefined\<close>, and a stored host port \<open>0\<close> is falsy as well, so it counts as absent.
\<close>

definition truthy_entry :: "BoundPorts \<Rightarrow> string \<Rightarrow> int option" where
  "truthy_entry reg k =
     (case Map_get reg k of
        None \<Rightarrow> None
      | Some hp \<Rightarrow> if hp = 0 then None else Some hp)"

text \<open>
  The key under which \<open>setBinding\<close> stores a string key: a key with \<open>/\<close> is cut down to
  its first two segments and the second one is lower-cased; a key without \<open>/\<close> is
  kept as it is.
\<close>

definition storedKey :: "string \<Rightarrow> string" where
  "storedKey s =
     (if includes_slash s then
        takeWhile (\<lambda>c. c \<noteq> CHR ''/'') s @ [CHR ''/''] @
        toLowerCase (takeWhile (\<lambda>c. c \<noteq> CHR ''/'') (tl (dropWhile (\<lambda>c. c \<noteq> CHR ''/'') s)))
      else s)"

section \<open>Facts about strings\<close>

lemma toLowerChar_idem: "toLowerChar (toLowerChar c) = toLowerChar c"
  by (simp add: toLowerChar_def Let_def)

lemma toLowerCase_idem: "toLowerCase (toLowerCase s) = toLowerCase s"
  by (simp add: toLowerCase_def toLowerChar_idem)

lemma toLowerChar_slash: "toLowerChar c = CHR ''/'' \<longleftrightarrow> c = CHR ''/''"
  by (auto simp: toLowerChar_def Let_def char_of_eq_iff take_bit_eq_mod)

lemma slash_toLowerCase: "CHR ''/'' \<in> set (toLowerCase s) \<longleftrightarrow> CHR ''/'' \<in> set s"
proof -
  have "\<And>c. (CHR ''/'' = toLowerChar c) = (CHR ''/'' = c)"
    using toLowerChar_slash by metis
  then show ?thesis
    by (induction s) (simp_all add: toLowerCase_def)
qed

lemma digit_char_is_digit: "digit_char d \<in> set ''0123456789''"
  unfolding digit_char_def by (rule nth_mem) simp

lemma digit_char_not_slash: "CHR ''/'' \<noteq> digit_char d"
  using digit_char_is_digit [of d] by auto

lemma slash_notin_nat_toString: "CHR ''/'' \<notin> set (nat_toString n)"
  by (induction n rule: nat_toString.induct) (subst nat_toString.simps, simp add: digit_char_not_slash)

lemma slash_notin_number_toString: "CHR ''/'' \<notin> set (number_toString n)"
  by (simp add: number_toString_def slash_notin_nat_toString)

lemma split_first:
  "split_slash s =
     takeWhile (\<lambda>c. c \<noteq> CHR ''/'') s #
     (case dropWhile (\<lambda>c. c \<noteq> CHR ''/'') s of [] \<Rightarrow> [] | _ # r \<Rightarrow> split_slash r)"
  by (induction s) (auto split: list.splits)

section \<open>The host-port resolver: properties\<close>

lemmas regex_eval = isIP_def isIPv4_def isIPv6_def v4Str_def v4Seg_def v6Str_def v6Seg_def
  colon_def digit_def between_def zone_or_end_def numeral_eq_Suc

lemma isIP_empty: "isIP [] = 0"
  by (simp add: regex_eval)

lemma isIP_10_0_0_1: "isIP ''10.0.0.1'' = 4"
  by (simp add: regex_eval)

lemma isIP_loopback6: "isIP ''::1'' = 6"
  by (simp add: regex_eval)

lemma family_number_pos: "family_number f \<noteq> 0"
  by (cases f) (simp_all add: family_number_def)

lemma parsesAs_nonempty: "parsesAs f b \<Longrightarrow> hostIp b \<noteq> []"
  using family_number_pos [of f] by (auto simp: parsesAs_def isIP_empty)

lemma find_Some_member: "find P xs = Some x \<Longrightarrow> x \<in> set xs \<and> P x"
  by (induction xs) (auto split: if_splits)

lemma resolveFamilies_first:
  "\<forall>h'\<in>set pre. find (parsesAs (family h')) bindings = None \<Longrightarrow>
   find (parsesAs (family h)) bindings = Some b \<Longrightarrow>
   resolveFamilies (pre @ h # post) bindings = Inr (hostPort b)"
  by (induction pre) simp_all

lemma resolveFamilies_none:
  "\<forall>h\<in>set hostIps. find (parsesAs (family h)) bindings = None \<Longrightarrow>
   resolveFamilies hostIps bindings = Inl (Error ''No host port found for host IP'')"
  by (induction hostIps) simp_all

lemma resolveFamilies_Inr:
  "resolveFamilies hostIps bindings = Inr p \<Longrightarrow>
   \<exists>h\<in>set hostIps. \<exists>b. find (parsesAs (family h)) bindings = Some b \<and> hostPort b = p"
  by (induction hostIps) (auto split: option.splits)

lemma resolveFamilies_Inl:
  "resolveFamilies hostIps bindings = Inl e \<Longrightarrow> e = Error ''No host port found for host IP''"
  by (induction hostIps) (auto split: option.splits)

text \<open>
  Claim C4.  Whatever the list of host IP families is (empty, or in any order), a raw
  binding list that consists of exactly one entry whose \<open>hostIp\<close> is the empty string
  resolves to that entry's host port.
\<close>

theorem dual_stack_wildcard:
  "hostIp b = [] \<Longrightarrow> resolveHostPortBinding hostIps [b] = Inr (hostPort b)"
  by (simp add: resolveHostPortBinding_def isDualStackIp_def)

theorem dual_stack_wildcard_witness:
  "resolveHostPortBinding [] [\<lparr>hostIp = [], hostPort = 45000\<rparr>] = Inr 45000
   \<and> resolveHostPortBinding [\<lparr>family = IPv6\<rparr>, \<lparr>family = IPv4\<rparr>] [\<lparr>hostIp = [], hostPort = 45000\<rparr>] = Inr 45000"
  using dual_stack_wildcard [of "\<lparr>hostIp = [], hostPort = 45000\<rparr>" "[]"]
    dual_stack_wildcard [of "\<lparr>hostIp = [], hostPort = 45000\<rparr>" "[\<lparr>family = IPv6\<rparr>, \<lparr>family = IPv4\<rparr>]"]
  by simp

text \<open>
  Claim C3.  For a binding list that is not the dual-stack wildcard, the resolver goes
  through the host IP families in the order given.  The first family for which some
  binding's \<open>hostIp\<close> parses as that family decides: the result is the host port of the
  first such binding.  When no family has a binding, the resolver raises.  With the
  bindings \<open>10.0.0.1 \<mapsto> 100\<close> and \<open>::1 \<mapsto> 200\<close>, the preference \<open>[IPv4]\<close> gives \<open>100\<close> and the
  preference \<open>[IPv6]\<close> gives \<open>200\<close>.
\<close>

theorem family_preference:
  "(\<not> isDualStackIp bindings \<longrightarrow>
      (\<forall>pre h post b.
          hostIps = pre @ h # post
          \<and> (\<forall>h'\<in>set pre. find (parsesAs (family h')) bindings = None)
          \<and> find (parsesAs (family h)) bindings = Some b
          \<longrightarrow> resolveHostPortBinding hostIps bindings = Inr (hostPort b))
      \<and> ((\<forall>h\<in>set hostIps. find (parsesAs (family h)) bindings = None)
          \<longrightarrow> resolveHostPortBinding hostIps bindings = Inl (Error ''No host port found for host IP'')))
   \<and> resolveHostPortBinding [\<lparr>family = IPv4\<rparr>]
        [\<lparr>hostIp = ''10.0.0.1'', hostPort = 100\<rparr>, \<lparr>hostIp = ''::1'', hostPort = 200\<rparr>] = Inr 100
   \<and> resolveHostPortBinding [\<lparr>family = IPv6\<rparr>]
        [\<lparr>hostIp = ''10.0.0.1'', hostPort = 100\<rparr>, \<lparr>hostIp = ''::1'', hostPort = 200\<rparr>] = Inr 200"
proof (intro conjI impI allI)
  fix pre h post b
  assume "\<not> isDualStackIp bindings"
    and "hostIps = pre @ h # post
          \<and> (\<forall>h'\<in>set pre. find (parsesAs (family h')) bindings = None)
          \<and> find (parsesAs (family h)) bindings = Some b"
  then show "resolveHostPortBinding hostIps bindings = Inr (hostPort b)"
    by (simp add: resolveHostPortBinding_def resolveFamilies_first)
next
  assume "\<not> isDualStackIp bindings"
    and "\<forall>h\<in>set hostIps. find (parsesAs (family h)) bindings = None"
  then show "resolveHostPortBinding hostIps bindings = Inl (Error ''No host port found for host IP'')"
    by (simp add: resolveHostPortBinding_def resolveFamilies_none)
next
  show "resolveHostPortBinding [\<lparr>family = IPv4\<rparr>]
        [\<lparr>hostIp = ''10.0.0.1'', hostPort = 100\<rparr>, \<lparr>hostIp = ''::1'', hostPort = 200\<rparr>] = Inr 100"
    by (simp add: resolveHostPortBinding_def isDualStackIp_def parsesAs_def family_number_def
        isIP_10_0_0_1)
next
  show "resolveHostPortBinding [\<lparr>family = IPv6\<rparr>]
        [\<lparr>hostIp = ''10.0.0.1'', hostPort = 100\<rparr>, \<lparr>hostIp = ''::1'', hostPort = 200\<rparr>] = Inr 200"
    by (simp add: resolveHostPortBinding_def isDualStackIp_def parsesAs_def family_number_def
        isIP_10_0_0_1 isIP_loopback6)
qed

theorem family_preference_witness:
  "\<not> isDualStackIp [\<lparr>hostIp = ''10.0.0.1'', hostPort = 100\<rparr>, \<lparr>hostIp = ''::1'', hostPort = 200\<rparr>]
   \<and> find (parsesAs IPv6) [\<lparr>hostIp = ''10.0.0.1'', hostPort = 100\<rparr>, \<lparr>hostIp = ''::1'', hostPort = 200\<rparr>]
       = Some \<lparr>hostIp = ''::1'', hostPort = 200\<rparr>
   \<and> resolveHostPortBinding [\<lparr>family = IPv6\<rparr>, \<lparr>family = IPv4\<rparr>]
        [\<lparr>hostIp = ''10.0.0.1'', hostPort = 100\<rparr>, \<lparr>hostIp = ''::1'', hostPort = 200\<rparr>] = Inr 200"
proof -
  let ?bs = "[\<lparr>hostIp = ''10.0.0.1'', hostPort = 100\<rparr>, \<lparr>hostIp = ''::1'', hostPort = 200\<rparr>]"
  let ?hs = "[\<lparr>family = IPv6\<rparr>, \<lparr>family = IPv4\<rparr>]"
  have nd: "\<not> isDualStackIp ?bs"
    by (simp add: isDualStackIp_def)
  have f: "find (parsesAs IPv6) ?bs = Some \<lparr>hostIp = ''::1'', hostPort = 200\<rparr>"
    by (simp add: parsesAs_def family_number_def isIP_10_0_0_1 isIP_loopback6)
  have "?hs = [] @ \<lparr>family = IPv6\<rparr> # [\<lparr>family = IPv4\<rparr>]
        \<and> (\<forall>h'\<in>set []. find (parsesAs (family h')) ?bs = None)
        \<and> find (parsesAs (family \<lparr>family = IPv6\<rparr>)) ?bs = Some \<lparr>hostIp = ''::1'', hostPort = 200\<rparr>"
    using f by simp
  with nd family_preference [of ?bs ?hs]
  have "resolveHostPortBinding ?hs ?bs = Inr (hostPort \<lparr>hostIp = ''::1'', hostPort = 200\<rparr>)"
    by blast
  with nd f show ?thesis by simp
qed

text \<open>
  Claim C10.  The empty string parses as no IP family, so an entry with an empty
  \<open>hostIp\<close> is never the one a family selects: whenever the resolver returns a port
  for a list that is not the sole wildcard (in particular for a list of more than one
  entry), the selected entry has a non-empty \<open>hostIp\<close>.  With no host IP family at
  all, every list that is not the sole wildcard fails to resolve.
\<close>

theorem wildcard_only_when_sole:
  "(hostIp b = [] \<longrightarrow> \<not> parsesAs f b)
   \<and> (1 < length bindings \<longrightarrow> \<not> isDualStackIp bindings)
   \<and> (\<not> isDualStackIp bindings \<and> resolveHostPortBinding hostIps bindings = Inr p \<longrightarrow>
        (\<exists>h\<in>set hostIps. \<exists>b'\<in>set bindings.
            find (parsesAs (family h)) bindings = Some b' \<and> hostPort b' = p \<and> hostIp b' \<noteq> []))
   \<and> (\<not> isDualStackIp bindings \<longrightarrow>
        resolveHostPortBinding [] bindings = Inl (Error ''No host port found for host IP''))"
proof (intro conjI impI)
  assume "hostIp b = []"
  then show "\<not> parsesAs f b"
    using parsesAs_nonempty by blast
next
  assume "1 < length bindings"
  then show "\<not> isDualStackIp bindings"
    by (simp add: isDualStackIp_def)
next
  assume a: "\<not> isDualStackIp bindings \<and> resolveHostPortBinding hostIps bindings = Inr p"
  then have "resolveFamilies hostIps bindings = Inr p"
    by (auto simp: resolveHostPortBinding_def)
  then obtain h b' where h: "h \<in> set hostIps"
      and b': "find (parsesAs (family h)) bindings = Some b'" "hostPort b' = p"
    using resolveFamilies_Inr by blast
  from b'(1) have "b' \<in> set bindings" "parsesAs (family h) b'"
    using find_Some_member by fastforce+
  then show "\<exists>h\<in>set hostIps. \<exists>b'\<in>set bindings.
            find (parsesAs (family h)) bindings = Some b' \<and> hostPort b' = p \<and> hostIp b' \<noteq> []"
    using h b' parsesAs_nonempty by blast
next
  assume "\<not> isDualStackIp bindings"
  then show "resolveHostPortBinding [] bindings = Inl (Error ''No host port found for host IP'')"
    by (simp add: resolveHostPortBinding_def)
qed

theorem wildcard_only_when_sole_witness:
  "1 < length [\<lparr>hostIp = [], hostPort = 100\<rparr>, \<lparr>hostIp = ''10.0.0.1'', hostPort = 200\<rparr>]
   \<and> resolveHostPortBinding [\<lparr>family = IPv4\<rparr>]
        [\<lparr>hostIp = [], hostPort = 100\<rparr>, \<lparr>hostIp = ''10.0.0.1'', hostPort = 200\<rparr>] = Inr 200
   \<and> resolveHostPortBinding []
        [\<lparr>hostIp = [], hostPort = 100\<rparr>, \<lparr>hostIp = ''10.0.0.1'', hostPort = 200\<rparr>]
       = Inl (Error ''No host port found for host IP'')"
proof -
  let ?bs = "[\<lparr>hostIp = [], hostPort = 100\<rparr>, \<lparr>hostIp = ''10.0.0.1'', hostPort = 200\<rparr>]"
  have len: "1 < length ?bs" by simp
  have r: "resolveHostPortBinding [\<lparr>family = IPv4\<rparr>] ?bs = Inr 200"
    by (simp add: resolveHostPortBinding_def isDualStackIp_def parsesAs_def family_number_def
        isIP_10_0_0_1 isIP_empty)
  from len wildcard_only_when_sole [of _ _ ?bs] have nd: "\<not> isDualStackIp ?bs"
    by blast
  with wildcard_only_when_sole [of _ _ ?bs]
  have "resolveHostPortBinding [] ?bs = Inl (Error ''No host port found for host IP'')"
    by blast
  with len r show ?thesis by simp
qed

section \<open>The registry: properties\<close>

lemma dropWhile_slash:
  "CHR ''/'' \<in> set s \<Longrightarrow> \<exists>r. dropWhile (\<lambda>c. c \<noteq> CHR ''/'') s = CHR ''/'' # r"
  by (induction s) auto

lemma takeWhile_before_slash:
  "CHR ''/'' \<notin> set a \<Longrightarrow> takeWhile (\<lambda>c. c \<noteq> CHR ''/'') (a @ CHR ''/'' # b) = a"
  by (induction a) auto

lemma dropWhile_before_slash:
  "CHR ''/'' \<notin> set a \<Longrightarrow> dropWhile (\<lambda>c. c \<noteq> CHR ''/'') (a @ CHR ''/'' # b) = CHR ''/'' # b"
  by (induction a) auto

lemma destructure2_split_slash:
  assumes "includes_slash s"
  shows "destructure2 (split_slash s) =
     (takeWhile (\<lambda>c. c \<noteq> CHR ''/'') s,
      Some (takeWhile (\<lambda>c. c \<noteq> CHR ''/'') (tl (dropWhile (\<lambda>c. c \<noteq> CHR ''/'') s))))"
proof -
  from assms obtain r where r: "dropWhile (\<lambda>c. c \<noteq> CHR ''/'') s = CHR ''/'' # r"
    using dropWhile_slash by (auto simp: includes_slash_def)
  have "split_slash s = takeWhile (\<lambda>c. c \<noteq> CHR ''/'') s # split_slash r"
    by (subst split_first) (simp add: r)
  also have "split_slash r = takeWhile (\<lambda>c. c \<noteq> CHR ''/'') r #
      (case dropWhile (\<lambda>c. c \<noteq> CHR ''/'') r of [] \<Rightarrow> [] | _ # t \<Rightarrow> split_slash t)"
    by (rule split_first)
  finally show ?thesis
    by (simp add: destructure2_def r)
qed

lemma setBinding_Str: "setBinding reg (Str s) v protocol = Inr (Map_set reg (storedKey s) v)"
  by (simp add: setBinding_def storedKey_def destructure2_split_slash)

lemma setBinding_Num:
  "setBinding reg (Num n) v protocol =
     Inr (Map_set reg (number_toString n @ [CHR ''/''] @ toLowerCase (protocol_or_default protocol)) v)"
  by (simp add: setBinding_def)

lemma storedKey_no_slash: "CHR ''/'' \<notin> set s \<Longrightarrow> storedKey s = s"
  by (simp add: storedKey_def includes_slash_def)

lemma storedKey_slash:
  "CHR ''/'' \<notin> set a \<Longrightarrow>
   storedKey (a @ [CHR ''/''] @ b) = a @ [CHR ''/''] @ toLowerCase (takeWhile (\<lambda>c. c \<noteq> CHR ''/'') b)"
  by (simp add: storedKey_def includes_slash_def takeWhile_before_slash dropWhile_before_slash)

lemmas string_eval = toLowerCase_def toLowerChar_def char_of_eq_iff number_toString_def
  nat_toString.simps digit_char_def includes_slash_def

lemma toLowerCase_tcp: "toLowerCase ''tcp'' = ''tcp''" "toLowerCase ''TCP'' = ''tcp''"
  by (simp_all add: toLowerCase_def toLowerChar_def char_of_eq_iff)

lemma toLowerCase_udp: "toLowerCase ''udp'' = ''udp''" "toLowerCase ''UDP'' = ''udp''"
  by (simp_all add: toLowerCase_def toLowerChar_def char_of_eq_iff)

lemma number_toString_examples:
  "number_toString 8080 = ''8080''" "number_toString 9090 = ''9090''"
  "number_toString 9999 = ''9999''"
  by (simp_all add: number_toString_def nat_toString.simps digit_char_def)

lemma valid_host_ports_nonzero:
  "valid_host_ports reg \<Longrightarrow> Map_get reg k = Some v \<Longrightarrow> v \<noteq> 0"
  by (auto simp: valid_host_ports_def Map_get_def list_all_iff dest!: map_of_SomeD)

lemma Map_get_Map_set: "Map_get (Map_set reg k v) k' = (if k' = k then Some v else Map_get reg k')"
  by (simp add: Map_get_def Map_set_def update_conv')

lemma keys_normalized_present:
  "keys_normalized reg \<Longrightarrow> Map_get reg k = Some v \<Longrightarrow> lower_after_slash k"
  by (auto simp: keys_normalized_def Map_get_def list_all_iff dest!: map_of_SomeD)

lemma toLowerChar_slash_eq: "toLowerChar CHR ''/'' = CHR ''/''"
  by (simp add: toLowerChar_slash)

lemma lower_after_slash_key:
  "CHR ''/'' \<notin> set a \<Longrightarrow> lower_after_slash (a @ CHR ''/'' # b) \<longleftrightarrow> toLowerCase b = b"
  by (simp add: lower_after_slash_def dropWhile_before_slash toLowerCase_def toLowerChar_slash_eq)

lemma takeWhile_no_slash: "CHR ''/'' \<notin> set b \<Longrightarrow> takeWhile (\<lambda>c. c \<noteq> CHR ''/'') b = b"
  by (induction b) auto

text \<open>The registry invariants hold for a new registry and are kept by \<open>setBinding\<close>.\<close>

lemma list_all_update:
  "list_all P al \<Longrightarrow> P (k, v) \<Longrightarrow> list_all P (AList.update k v al)"
  by (induction al) auto

lemma dropWhile_no_slash: "CHR ''/'' \<notin> set s \<Longrightarrow> dropWhile (\<lambda>c. c \<noteq> CHR ''/'') s = []"
  by (induction s) auto

lemma lower_after_slash_storedKey: "lower_after_slash (storedKey s)"
proof (cases "includes_slash s")
  case True
  have "CHR ''/'' \<notin> set (takeWhile (\<lambda>c. c \<noteq> CHR ''/'') s)"
    by (auto dest: set_takeWhileD)
  then show ?thesis
    using True lower_after_slash_key [of "takeWhile (\<lambda>c. c \<noteq> CHR ''/'') s"]
    by (simp add: storedKey_def toLowerCase_idem)
next
  case False
  then show ?thesis
    by (simp add: storedKey_def lower_after_slash_def toLowerCase_def includes_slash_def
        dropWhile_no_slash del: dropWhile_eq_Nil_conv)
qed

lemma keys_normalized_new: "keys_normalized []"
  by (simp add: keys_normalized_def)

lemma keys_normalized_setBinding:
  assumes "keys_normalized reg" and "setBinding reg key v protocol = Inr reg'"
  shows "keys_normalized reg'"
proof (cases key)
  case (Num n)
  have "lower_after_slash (number_toString n @ CHR ''/'' # toLowerCase (protocol_or_default protocol))"
    using lower_after_slash_key [OF slash_notin_number_toString] by (simp add: toLowerCase_idem)
  with assms Num show ?thesis
    by (auto simp: setBinding_Num keys_normalized_def Map_set_def intro: list_all_update)
next
  case (Str s)
  with assms lower_after_slash_storedKey [of s] show ?thesis
    by (auto simp: setBinding_Str keys_normalized_def Map_set_def intro: list_all_update)
qed

lemma valid_host_ports_setBinding:
  assumes "valid_host_ports reg" and "1 \<le> v" and "v \<le> 65535"
    and "setBinding reg key v protocol = Inr reg'"
  shows "valid_host_ports reg'"
  using assms
  by (cases key) (auto simp: setBinding_Num setBinding_Str valid_host_ports_def Map_set_def
      intro: list_all_update)

text \<open>
  Claim C5, as amended.  A string key that contains \<open>/\<close> is stored under its first
  segment, \<open>/\<close>, and its second segment lower-cased; the \<open>protocol\<close> parameter plays no
  part.  A string key without \<open>/\<close> is stored as it is, and again the \<open>protocol\<close>
  parameter plays no part: nothing is appended.  Only a number key is stored under
  the number, \<open>/\<close>, and the lower-cased \<open>protocol\<close> parameter, which is \<open>tcp\<close> when it is
  left out.  The claim as first stated also promised a synthesized key for a string
  without \<open>/\<close>; the counterexample shows a key \<open>8080\<close> stored as \<open>8080\<close>, not \<open>8080/udp\<close>.
\<close>

theorem setBinding_stored_key:
  "(CHR ''/'' \<notin> set a \<longrightarrow>
      setBinding reg (Str (a @ [CHR ''/''] @ b)) v protocol =
        Inr (Map_set reg (a @ [CHR ''/''] @ toLowerCase (takeWhile (\<lambda>c. c \<noteq> CHR ''/'') b)) v))
   \<and> (CHR ''/'' \<notin> set s \<longrightarrow> setBinding reg (Str s) v protocol = Inr (Map_set reg s v))
   \<and> setBinding reg (Num n) v protocol =
        Inr (Map_set reg (number_toString n @ [CHR ''/''] @ toLowerCase (protocol_or_default protocol)) v)
   \<and> protocol_or_default None = ''tcp''"
  using storedKey_slash [of a b]
  by (simp add: setBinding_Str setBinding_Num storedKey_no_slash protocol_or_default_def)

theorem setBinding_stored_key_witness:
  "CHR ''/'' \<notin> set ''8080''
   \<and> setBinding [] (Str ''8080/TCP'') 45000 (Some ''udp'') = Inr [(''8080/tcp'', 45000)]
   \<and> setBinding [] (Str ''8080'') 45000 (Some ''UDP'') = Inr [(''8080'', 45000)]
   \<and> setBinding [] (Num 8080) 45000 (Some ''UDP'') = Inr [(''8080/udp'', 45000)]
   \<and> setBinding [] (Num 8080) 45000 None = Inr [(''8080/tcp'', 45000)]"
proof -
  have ns: "CHR ''/'' \<notin> set ''8080''" by simp
  have n: "number_toString 8080 = ''8080''" by (simp add: string_eval)
  from ns setBinding_stored_key [of "''8080''" "[]" "''TCP''" 45000 "Some ''udp''" "''8080''" 8080]
  have "setBinding [] (Str ''8080/TCP'') 45000 (Some ''udp'') = Inr [(''8080/tcp'', 45000)]"
    by (simp add: Map_set_def string_eval)
  moreover from ns setBinding_stored_key [of "''8080''" "[]" "''TCP''" 45000 "Some ''UDP''" "''8080''" 8080]
  have "setBinding [] (Str ''8080'') 45000 (Some ''UDP'') = Inr [(''8080'', 45000)]"
    by (simp add: Map_set_def)
  moreover from setBinding_stored_key [of "''8080''" "[]" "''TCP''" 45000 "Some ''UDP''" "''8080''" 8080]
  have "setBinding [] (Num 8080) 45000 (Some ''UDP'') = Inr [(''8080/udp'', 45000)]"
    by (simp add: Map_set_def n protocol_or_default_def toLowerCase_def toLowerChar_def char_of_eq_iff)
  moreover from setBinding_stored_key [of "''8080''" "[]" "''TCP''" 45000 "None" "''8080''" 8080]
  have "setBinding [] (Num 8080) 45000 None = Inr [(''8080/tcp'', 45000)]"
    by (simp add: Map_set_def n toLowerCase_def toLowerChar_def char_of_eq_iff)
  ultimately show ?thesis using ns by simp
qed

theorem setBinding_string_key_counterexample:
  "setBinding [] (Str ''8080'') 45000 (Some ''udp'') = Inr [(''8080'', 45000)]
   \<and> setBinding [] (Str ''8080'') 45000 (Some ''udp'') \<noteq> Inr [(''8080/udp'', 45000)]"
  by (simp add: setBinding_def includes_slash_def Map_set_def)

lemma truthy_entry_valid: "valid_host_ports reg \<Longrightarrow> truthy_entry reg k = Map_get reg k"
  using valid_host_ports_nonzero [of reg k]
  by (auto simp: truthy_entry_def split: option.splits)

text \<open>
  Claim C8, as amended.  \<open>getBinding\<close> raises \<open>No port binding found\<close> exactly when no
  entry with a host port other than \<open>0\<close> matches: for a number, under the number, \<open>/\<close>,
  and the lower-cased protocol; for a string without \<open>/\<close>, under the string; for a
  string with \<open>/\<close>, under the string and, failing that, under its first segment, \<open>/\<close>,
  and its second segment lower-cased.  When such an entry matches, its host port is
  returned, the exact key going first.  A stored host port \<open>0\<close> is treated as a
  missing entry, which the claim as first stated did not allow for: the
  counterexample stores \<open>0\<close> under \<open>8080/tcp\<close> and the lookup of \<open>8080\<close> fails.  On a
  registry whose host ports are all in \<open>[1, 65535]\<close> every entry counts.
\<close>

theorem getBinding_not_found_iff:
  "getBinding reg (Num n) protocol =
     (case truthy_entry reg (number_toString n @ [CHR ''/''] @ toLowerCase (protocol_or_default protocol)) of
        Some hp \<Rightarrow> Inr hp
      | None \<Rightarrow> Inl (Error (''No port binding found for :'' @
                 number_toString n @ [CHR ''/''] @ toLowerCase (protocol_or_default protocol))))
   \<and> (CHR ''/'' \<notin> set s \<longrightarrow>
        getBinding reg (Str s) protocol =
          (case truthy_entry reg s of
             Some hp \<Rightarrow> Inr hp
           | None \<Rightarrow> Inl (Error (''No port binding found for :'' @ s))))
   \<and> (CHR ''/'' \<notin> set a \<longrightarrow>
        getBinding reg (Str (a @ [CHR ''/''] @ b)) protocol =
          (case truthy_entry reg (a @ [CHR ''/''] @ b) of
             Some hp \<Rightarrow> Inr hp
           | None \<Rightarrow>
               (case truthy_entry reg (a @ [CHR ''/''] @ toLowerCase (takeWhile (\<lambda>c. c \<noteq> CHR ''/'') b)) of
                  Some hp \<Rightarrow> Inr hp
                | None \<Rightarrow> Inl (Error (''No port binding found for :'' @ a @ [CHR ''/''] @ b)))))
   \<and> (valid_host_ports reg \<longrightarrow> truthy_entry reg k = Map_get reg k)"
proof (intro conjI impI)
  show "getBinding reg (Num n) protocol =
     (case truthy_entry reg (number_toString n @ [CHR ''/''] @ toLowerCase (protocol_or_default protocol)) of
        Some hp \<Rightarrow> Inr hp
      | None \<Rightarrow> Inl (Error (''No port binding found for :'' @
                 number_toString n @ [CHR ''/''] @ toLowerCase (protocol_or_default protocol))))"
    by (auto simp: getBinding_def Let_def truthy_entry_def split: option.splits)
next
  assume "CHR ''/'' \<notin> set s"
  then show "getBinding reg (Str s) protocol =
          (case truthy_entry reg s of
             Some hp \<Rightarrow> Inr hp
           | None \<Rightarrow> Inl (Error (''No port binding found for :'' @ s)))"
    by (auto simp: getBinding_def Let_def includes_slash_def truthy_entry_def split: option.splits)
next
  assume a: "CHR ''/'' \<notin> set a"
  let ?s = "a @ [CHR ''/''] @ b"
  have inc: "includes_slash ?s" by (simp add: includes_slash_def)
  have d: "destructure2 (split_slash ?s) = (a, Some (takeWhile (\<lambda>c. c \<noteq> CHR ''/'') b))"
    using a destructure2_split_slash [OF inc]
    by (simp add: takeWhile_before_slash dropWhile_before_slash)
  show "getBinding reg (Str ?s) protocol =
          (case truthy_entry reg ?s of
             Some hp \<Rightarrow> Inr hp
           | None \<Rightarrow>
               (case truthy_entry reg (a @ [CHR ''/''] @ toLowerCase (takeWhile (\<lambda>c. c \<noteq> CHR ''/'') b)) of
                  Some hp \<Rightarrow> Inr hp
                | None \<Rightarrow> Inl (Error (''No port binding found for :'' @ ?s))))"
    using inc d
    by (auto simp: getBinding_def Let_def falsy_def truthy_entry_def split: option.splits)
next
  assume "valid_host_ports reg"
  then show "truthy_entry reg k = Map_get reg k"
    by (rule truthy_entry_valid)
qed

theorem getBinding_not_found_iff_witness:
  "valid_host_ports [(''8080/tcp'', 45000)]
   \<and> CHR ''/'' \<notin> set ''8080''
   \<and> getBinding [(''8080/tcp'', 45000)] (Num 9999) None = Inl (Error ''No port binding found for :9999/tcp'')
   \<and> getBinding [(''8080/tcp'', 45000)] (Num 8080) None = Inr 45000
   \<and> getBinding [(''8080/tcp'', 45000)] (Str ''8080'') None = Inl (Error ''No port binding found for :8080'')
   \<and> getBinding [(''8080/tcp'', 45000)] (Str ''8080/TCP'') None = Inr 45000
   \<and> getBinding [(''8080/TCP'', 0), (''8080/tcp'', 45000)] (Str ''8080/TCP'') None = Inr 45000"
proof -
  let ?reg = "[(''8080/tcp'', 45000 :: int)]"
  let ?zreg = "[(''8080/TCP'', 0 :: int), (''8080/tcp'', 45000)]"
  have v: "valid_host_ports ?reg" by (simp add: valid_host_ports_def)
  have ns: "CHR ''/'' \<notin> set ''8080''" by simp
  from ns getBinding_not_found_iff [of ?reg 9999 None "''8080''" "''8080''" "''TCP''"]
  have "getBinding ?reg (Num 9999) None = Inl (Error ''No port binding found for :9999/tcp'')"
    and "getBinding ?reg (Str ''8080'') None = Inl (Error ''No port binding found for :8080'')"
    and "getBinding ?reg (Str ''8080/TCP'') None = Inr 45000"
    by (simp_all add: number_toString_examples toLowerCase_tcp truthy_entry_def Map_get_def
        protocol_or_default_def)
  moreover from getBinding_not_found_iff [of ?reg 8080 None "''8080''" "''8080''" "''TCP''"]
  have "getBinding ?reg (Num 8080) None = Inr 45000"
    by (simp add: number_toString_examples toLowerCase_tcp truthy_entry_def Map_get_def
        protocol_or_default_def)
  moreover from ns getBinding_not_found_iff [of ?zreg 8080 None "''8080''" "''8080''" "''TCP''"]
  have "getBinding ?zreg (Str ''8080/TCP'') None = Inr 45000"
    by (simp add: toLowerCase_tcp truthy_entry_def Map_get_def)
  ultimately show ?thesis using v ns by simp
qed

theorem getBinding_zero_port_counterexample:
  "setBinding [] (Num 8080) 0 None = Inr [(''8080/tcp'', 0)]
   \<and> Map_get [(''8080/tcp'', 0 :: int)] ''8080/tcp'' = Some 0
   \<and> getBinding [(''8080/tcp'', 0)] (Num 8080) None = Inl (Error ''No port binding found for :8080/tcp'')"
  by (simp add: setBinding_Num getBinding_def Let_def number_toString_examples toLowerCase_tcp
      protocol_or_default_def Map_set_def Map_get_def)

text \<open>
  Claim C6.  A binding stored under any casing of the protocol token is found under
  any other casing.  It may be stored through a \<open>"port/protocol"\<close> string or through a
  number with a protocol, and it is found through a \<open>"port/protocol"\<close> string (exact
  lookup, then the retry with the protocol lower-cased) as well as through a number
  with a protocol.  The protocol token has no \<open>/\<close>, the host port is in \<open>[1, 65535]\<close>, and
  the registry is one whose keys \<open>setBinding\<close> wrote.  The witness is the example of
  the specification: \<open>setBinding("8080/TCP", 45000)\<close>, then \<open>getBinding("8080/tcp")\<close> and
  \<open>getBinding(8080, "tcp")\<close>.
\<close>

theorem case_insensitive_binding:
  assumes norm: "keys_normalized reg"
    and p: "CHR ''/'' \<notin> set p"
    and pq: "toLowerCase q = toLowerCase p"
    and v: "1 \<le> v" "v \<le> 65535"
    and stored: "stored = setBinding reg (Str (number_toString n @ [CHR ''/''] @ p)) v protocol
                 \<or> stored = setBinding reg (Num n) v (Some p)"
  shows "\<exists>reg'. stored = Inr reg'
           \<and> getBinding reg' (Str (number_toString n @ [CHR ''/''] @ q)) protocol' = Inr v
           \<and> getBinding reg' (Num n) (Some q) = Inr v"
proof -
  let ?N = "number_toString n"
  let ?K = "?N @ CHR ''/'' # toLowerCase p"
  let ?reg' = "Map_set reg ?K v"
  have N: "CHR ''/'' \<notin> set ?N"
    by (rule slash_notin_number_toString)
  have q: "CHR ''/'' \<notin> set q"
    using p pq slash_toLowerCase by metis
  have "storedKey (?N @ CHR ''/'' # p) = ?K"
    using storedKey_slash [OF N, of p] takeWhile_no_slash [OF p] by simp
  then have st: "stored = Inr ?reg'"
    using stored by (auto simp: setBinding_Str setBinding_Num protocol_or_default_def)
  have vz: "v \<noteq> 0" using v by simp
  have num: "getBinding ?reg' (Num n) (Some q) = Inr v"
    using vz by (simp add: getBinding_def Let_def protocol_or_default_def pq Map_get_Map_set)
  have inc: "includes_slash (?N @ CHR ''/'' # q)"
    by (simp add: includes_slash_def)
  have d: "destructure2 (split_slash (?N @ CHR ''/'' # q)) = (?N, Some q)"
    using destructure2_split_slash [OF inc] N
    by (simp add: takeWhile_before_slash dropWhile_before_slash takeWhile_no_slash [OF q])
  have str: "getBinding ?reg' (Str (?N @ CHR ''/'' # q)) protocol' = Inr v"
  proof (cases "toLowerCase q = q")
    case True
    then have "?N @ CHR ''/'' # q = ?K" using pq by simp
    then show ?thesis
      using vz by (simp add: getBinding_def Let_def Map_get_Map_set falsy_def)
  next
    case False
    have "Map_get reg (?N @ CHR ''/'' # q) = None"
    proof (cases "Map_get reg (?N @ CHR ''/'' # q)")
      case (Some w)
      then have "lower_after_slash (?N @ CHR ''/'' # q)"
        using keys_normalized_present [OF norm] by blast
      then show ?thesis using False lower_after_slash_key [OF N] by simp
    qed simp
    moreover have "?N @ CHR ''/'' # q \<noteq> ?K" using False pq by auto
    ultimately show ?thesis
      using vz inc d
      by (simp add: getBinding_def Let_def Map_get_Map_set falsy_def pq)
  qed
  from st num str show ?thesis by simp
qed

theorem case_insensitive_binding_witness:
  "keys_normalized [] \<and> CHR ''/'' \<notin> set ''TCP'' \<and> toLowerCase ''tcp'' = toLowerCase ''TCP''
   \<and> setBinding [] (Str ''8080/TCP'') 45000 None = Inr [(''8080/tcp'', 45000)]
   \<and> getBinding [(''8080/tcp'', 45000)] (Str ''8080/tcp'') None = Inr 45000
   \<and> getBinding [(''8080/tcp'', 45000)] (Num 8080) (Some ''tcp'') = Inr 45000"
proof -
  have k: "keys_normalized []" by (simp add: keys_normalized_def)
  have s: "CHR ''/'' \<notin> set ''TCP''" by simp
  have l: "toLowerCase ''tcp'' = toLowerCase ''TCP''"
    by (simp add: toLowerCase_tcp)
  have n: "number_toString 8080 = ''8080''" by (simp add: string_eval)
  have st: "setBinding [] (Str ''8080/TCP'') 45000 None = Inr [(''8080/tcp'', 45000)]"
    by (simp add: setBinding_Str storedKey_def Map_set_def string_eval)
  from case_insensitive_binding [OF k s l, of 45000 "setBinding [] (Str ''8080/TCP'') 45000 None" 8080 None None]
  obtain reg' where "setBinding [] (Str ''8080/TCP'') 45000 None = Inr reg'"
    and "getBinding reg' (Str ''8080/tcp'') None = Inr 45000"
    and "getBinding reg' (Num 8080) (Some ''tcp'') = Inr 45000"
    by (auto simp: n)
  with st k s l show ?thesis by simp
qed

section \<open>Building the registry from an inspection: properties\<close>

lemma isIP_any4: "isIP ''0.0.0.0'' = 4"
  by (simp add: regex_eval)

lemma Map_has_Map_set: "Map_has (Map_set reg k v) k' \<longleftrightarrow> k' = k \<or> Map_has reg k'"
  by (simp add: Map_has_def Map_set_def update_conv')

lemma resolveFamilies_empty:
  "resolveFamilies hostIps [] = Inl (Error ''No host port found for host IP'')"
  by (induction hostIps) simp_all

lemma resolveHostPortBinding_empty:
  "resolveHostPortBinding hostIps [] = Inl (Error ''No host port found for host IP'')"
  by (simp add: resolveHostPortBinding_def isDualStackIp_def resolveFamilies_empty)

lemma resolveHostPortBinding_Inl:
  "resolveHostPortBinding hostIps bs = Inl e \<Longrightarrow> e = Error ''No host port found for host IP''"
  by (auto simp: resolveHostPortBinding_def dest: resolveFamilies_Inl split: if_splits)

lemma fromInspectResult_loop_Inr:
  "fromInspectResult_loop hostIps entries acc = Inr reg \<Longrightarrow>
   (\<forall>k. Map_has reg k \<longleftrightarrow> Map_has acc k \<or> (\<exists>g bs. (g, bs) \<in> set entries \<and> storedKey g = k))
   \<and> (\<forall>g bs. (g, bs) \<in> set entries \<longrightarrow> bs \<noteq> [] \<and> (\<exists>p. resolveHostPortBinding hostIps bs = Inr p))"
proof (induction entries arbitrary: acc)
  case Nil
  then show ?case by simp
next
  case (Cons entry entries)
  obtain g bs where entry: "entry = (g, bs)" by (cases entry)
  from Cons.prems obtain p where p: "resolveHostPortBinding hostIps bs = Inr p"
    and rest: "fromInspectResult_loop hostIps entries (Map_set acc (storedKey g) p) = Inr reg"
    by (auto simp: entry setBinding_Str split: sum.splits)
  from p have ne: "bs \<noteq> []"
    using resolveHostPortBinding_empty [of hostIps] by auto
  from Cons.IH [OF rest] p ne show ?case
    by (auto simp: entry Map_has_Map_set)
qed

lemma fromInspectResult_loop_Inl:
  "fromInspectResult_loop hostIps entries acc = Inl e \<Longrightarrow> e = Error ''No host port found for host IP''"
proof (induction entries arbitrary: acc)
  case Nil
  then show ?case by simp
next
  case (Cons entry entries)
  obtain g bs where entry: "entry = (g, bs)" by (cases entry)
  from Cons show ?case
    by (auto simp: entry setBinding_Str split: sum.splits dest: resolveHostPortBinding_Inl)
qed

lemma fromInspectResult_loop_empty_group:
  "(g, []) \<in> set entries \<Longrightarrow> \<exists>e. fromInspectResult_loop hostIps entries acc = Inl e"
proof (induction entries arbitrary: acc)
  case Nil
  then show ?case by simp
next
  case (Cons entry entries)
  obtain g' bs where entry: "entry = (g', bs)" by (cases entry)
  from Cons show ?case
    by (auto simp: entry setBinding_Str resolveHostPortBinding_empty split: sum.splits)
qed

lemmas resolve_eval = resolveHostPortBinding_def isDualStackIp_def parsesAs_def family_number_def
  isIP_10_0_0_1 isIP_loopback6 isIP_empty isIP_any4

text \<open>
  Claim C9, as amended.  Whenever \<open>fromInspectResult\<close> returns a registry, a key is
  present in it exactly when the snapshot has a group with at least one binding
  whose key, as \<open>setBinding\<close> stores it, is that key; and then every group of the
  snapshot has at least one binding, one that the resolver accepts.  A snapshot
  with a group whose binding list is empty does not give a registry that lacks that
  key: \<open>fromInspectResult\<close> raises \<open>No host port found for host IP\<close> and no registry is
  built, as the counterexample shows for a snapshot whose other group is live.
\<close>

theorem fromInspectResult_keys:
  "(fromInspectResult hostIps snapshot = Inr reg \<longrightarrow>
      (\<forall>k. Map_has reg k \<longleftrightarrow>
            (\<exists>g bs. (g, bs) \<in> set (ports snapshot) \<and> bs \<noteq> [] \<and> storedKey g = k))
      \<and> (\<forall>g bs. (g, bs) \<in> set (ports snapshot) \<longrightarrow>
            bs \<noteq> [] \<and> (\<exists>p. resolveHostPortBinding hostIps bs = Inr p)))
   \<and> ((g, []) \<in> set (ports snapshot) \<longrightarrow>
        fromInspectResult hostIps snapshot = Inl (Error ''No host port found for host IP''))"
proof (intro conjI impI)
  assume "fromInspectResult hostIps snapshot = Inr reg"
  then have l: "fromInspectResult_loop hostIps (ports snapshot) [] = Inr reg"
    by (simp add: fromInspectResult_def)
  have empty: "\<And>k. \<not> Map_has ([] :: BoundPorts) k"
    by (simp add: Map_has_def)
  from fromInspectResult_loop_Inr [OF l] empty
  show "\<forall>k. Map_has reg k \<longleftrightarrow>
            (\<exists>g bs. (g, bs) \<in> set (ports snapshot) \<and> bs \<noteq> [] \<and> storedKey g = k)"
    by blast
  from fromInspectResult_loop_Inr [OF l]
  show "\<forall>g bs. (g, bs) \<in> set (ports snapshot) \<longrightarrow>
            bs \<noteq> [] \<and> (\<exists>p. resolveHostPortBinding hostIps bs = Inr p)"
    by blast
next
  assume "(g, []) \<in> set (ports snapshot)"
  then obtain e where "fromInspectResult_loop hostIps (ports snapshot) [] = Inl e"
    using fromInspectResult_loop_empty_group by blast
  then show "fromInspectResult hostIps snapshot = Inl (Error ''No host port found for host IP'')"
    using fromInspectResult_loop_Inl by (auto simp: fromInspectResult_def)
qed

theorem fromInspectResult_keys_witness:
  "fromInspectResult [\<lparr>family = IPv4\<rparr>]
      \<lparr>ports = [(''8080/TCP'', [\<lparr>hostIp = ''0.0.0.0'', hostPort = 45000\<rparr>])]\<rparr> = Inr [(''8080/tcp'', 45000)]
   \<and> Map_has [(''8080/tcp'', 45000 :: int)] ''8080/tcp''
   \<and> storedKey ''8080/TCP'' = ''8080/tcp''
   \<and> (''9090/udp'', []) \<in> set (ports \<lparr>ports = [(''8080/tcp'', [\<lparr>hostIp = ''0.0.0.0'', hostPort = 45000\<rparr>]), (''9090/udp'', [])]\<rparr>)
   \<and> fromInspectResult [\<lparr>family = IPv4\<rparr>]
      \<lparr>ports = [(''8080/tcp'', [\<lparr>hostIp = ''0.0.0.0'', hostPort = 45000\<rparr>]), (''9090/udp'', [])]\<rparr>
       = Inl (Error ''No host port found for host IP'')"
proof -
  let ?ok = "\<lparr>ports = [(''8080/TCP'', [\<lparr>hostIp = ''0.0.0.0'', hostPort = 45000\<rparr>])]\<rparr>"
  let ?bad = "\<lparr>ports = [(''8080/tcp'', [\<lparr>hostIp = ''0.0.0.0'', hostPort = 45000\<rparr>]), (''9090/udp'', [])]\<rparr>"
  have sk: "storedKey ''8080/TCP'' = ''8080/tcp''"
    by (simp add: storedKey_def includes_slash_def toLowerCase_tcp)
  have ok: "fromInspectResult [\<lparr>family = IPv4\<rparr>] ?ok = Inr [(''8080/tcp'', 45000)]"
    by (simp add: fromInspectResult_def resolve_eval setBinding_Str sk Map_set_def)
  have "Map_has [(''8080/tcp'', 45000 :: int)] ''8080/tcp''"
    using fromInspectResult_keys [of "[\<lparr>family = IPv4\<rparr>]" ?ok "[(''8080/tcp'', 45000)]"] ok sk
    by auto
  moreover have m: "(''9090/udp'', []) \<in> set (ports ?bad)" by simp
  moreover from m have "fromInspectResult [\<lparr>family = IPv4\<rparr>] ?bad = Inl (Error ''No host port found for host IP'')"
    using fromInspectResult_keys [of "[\<lparr>family = IPv4\<rparr>]" ?bad _ "''9090/udp''"] by blast
  ultimately show ?thesis using ok sk by simp
qed

theorem fromInspectResult_empty_group_counterexample:
  "fromInspectResult [\<lparr>family = IPv4\<rparr>]
      \<lparr>ports = [(''8080/tcp'', [\<lparr>hostIp = ''0.0.0.0'', hostPort = 45000\<rparr>]), (''9090/udp'', [])]\<rparr>
     = Inl (Error ''No host port found for host IP'')"
  by (simp add: fromInspectResult_def resolve_eval setBinding_Str storedKey_def includes_slash_def
      toLowerCase_tcp Map_set_def)

section \<open>Filtering: the same container port under two protocols\<close>

lemmas parse_eval = parseInt_def is_space_def is_digit_def digits_val_def digit_val_def
  decimal_def positive_port_def

lemma getContainerPort_examples:
  "getContainerPort (PortNumber 8080) = Inr 8080"
  "getContainerPort (PortString ''8080/udp'') = Inr 8080"
  "getContainerPort (PortString ''9090/udp'') = Inr 9090"
  by (simp_all add: getContainerPort_def parse_eval)

lemma getProtocol_examples:
  "getProtocol (PortNumber n) = ''tcp''"
  "getProtocol (PortString ''8080/udp'') = ''udp''"
  "getProtocol (PortString ''9090/udp'') = ''udp''"
  by (simp_all add: getProtocol_def includes_slash_def toLowerCase_udp)

lemma parseInt_examples: "parseInt ''8080'' = Some 8080" "parseInt ''9090'' = Some 9090"
  by (simp_all add: parse_eval)

lemma filter_keeps_examples:
  "filter_keeps [(8080, ''tcp'')] ''8080/tcp''"
  "\<not> filter_keeps [(8080, ''tcp'')] ''9090/udp''"
  "\<not> filter_keeps [(8080, ''tcp'')] ''8080/udp''"
  "\<not> filter_keeps [(8080, ''udp'')] ''8080/tcp''"
  "filter_keeps [(8080, ''udp'')] ''8080/udp''"
  by (simp_all add: filter_keeps_def destructure2_def parseInt_examples Map_has_def Map_get_def
      toLowerCase_tcp toLowerCase_udp)

text \<open>
  Claim C1.  The claim asks that, when two declarations share the container port and
  differ in protocol, the entries matching either one are kept.  The code keeps one
  protocol per container port, the last one declared: filtering the registry
  \<open>{8080/tcp: 1, 8080/udp: 2}\<close> by \<open>[8080, "8080/udp"]\<close> drops \<open>8080/tcp\<close>, although
  filtering by \<open>[8080]\<close> alone keeps it.  The last equation is the example of the
  specification.
\<close>

theorem filter_same_port_two_protocols:
  "filter_ports [(''8080/tcp'', 1), (''8080/udp'', 2)] [PortNumber 8080, PortString ''8080/udp'']
     = Inr [(''8080/udp'', 2)]
   \<and> filter_ports [(''8080/tcp'', 1), (''8080/udp'', 2)] [PortNumber 8080] = Inr [(''8080/tcp'', 1)]
   \<and> filter_ports [(''8080/tcp'', 1), (''8080/udp'', 2)] [PortString ''8080/udp''] = Inr [(''8080/udp'', 2)]
   \<and> filter_ports [(''8080/tcp'', 1), (''9090/udp'', 2)] [PortNumber 8080] = Inr [(''8080/tcp'', 1)]"
  by (simp add: filter_ports_def getContainerPort_examples getProtocol_examples Map_set_def
      filter_keeps_examples setBinding_Str storedKey_def includes_slash_def
      toLowerCase_tcp toLowerCase_udp)

section \<open>The readiness poller: properties\<close>

lemma every_True_iff: "every f xs = Inr True \<longleftrightarrow> (\<forall>x\<in>set xs. f x = Inr True)"
  by (induction xs) (auto split: sum.splits)

lemma portExposed_True_iff:
  "portExposed mapped w = Inr True \<longleftrightarrow>
   (\<exists>c bs. getContainerPort w = Inr c
      \<and> map_of (ports mapped) (number_toString c @ [CHR ''/''] @ getProtocol w) = Some bs \<and> bs \<noteq> [])"
  by (auto simp: portExposed_def Let_def split: sum.splits option.splits)

lemma retryUntil_from_times_out:
  assumes "\<And>i. i \<le> n \<Longrightarrow> \<exists>r. fn (a + i) = Inr r \<and> predicate r = Inr False"
    and "\<And>i. i < n \<Longrightarrow> e + (\<Sum>j\<le>i. cost (a + j)) + 250 * i < T"
    and "T \<le> e + (\<Sum>j\<le>n. cost (a + j)) + 250 * n"
  shows "retryUntil_from fn predicate onTimeout T cost a e = (Suc (a + n), TimedOut onTimeout)"
  using assms
proof (induction n arbitrary: a e)
  case 0
  from "0.prems"(1) [of 0] obtain r where "fn a = Inr r" "predicate r = Inr False" by auto
  with "0.prems"(3) show ?case
    by (subst retryUntil_from.simps) simp
next
  case (Suc n)
  from Suc.prems(1) [of 0] obtain r where r: "fn a = Inr r" "predicate r = Inr False" by auto
  from Suc.prems(2) [of 0] have lt: "\<not> T \<le> e + cost a" by simp
  have step: "retryUntil_from fn predicate onTimeout T cost a e =
              retryUntil_from fn predicate onTimeout T cost (Suc a) (e + cost a + 250)"
    using r lt by (subst retryUntil_from.simps) simp
  have shift: "\<And>i. (\<Sum>j\<le>Suc i. cost (a + j)) = cost a + (\<Sum>j\<le>i. cost (Suc a + j))"
    by (simp add: sum.atMost_Suc_shift del: sum.atMost_Suc)
  have 1: "\<exists>r. fn (Suc a + i) = Inr r \<and> predicate r = Inr False" if "i \<le> n" for i
    using Suc.prems(1) [of "Suc i"] that by simp
  have 2: "(e + cost a + 250) + (\<Sum>j\<le>i. cost (Suc a + j)) + 250 * i < T" if "i < n" for i
    using Suc.prems(2) [of "Suc i"] that by (simp add: shift del: sum.atMost_Suc)
  have 3: "T \<le> (e + cost a + 250) + (\<Sum>j\<le>n. cost (Suc a + j)) + 250 * n"
    using Suc.prems(3) by (simp add: shift del: sum.atMost_Suc)
  from Suc.IH [OF 1 2 3] step show ?case by simp
qed

lemma retryUntil_from_returns:
  assumes "\<And>i. i < n \<Longrightarrow> \<exists>r. fn (a + i) = Inr r \<and> predicate r = Inr False"
    and "\<And>i. i < n \<Longrightarrow> e + (\<Sum>j\<le>i. cost (a + j)) + 250 * i < T"
    and "fn (a + n) = Inr r" "predicate r = Inr True"
  shows "retryUntil_from fn predicate onTimeout T cost a e = (Suc (a + n), Returned r)"
  using assms
proof (induction n arbitrary: a e)
  case 0
  then show ?case
    by (subst retryUntil_from.simps) simp
next
  case (Suc n)
  from Suc.prems(1) [of 0] obtain r0 where r: "fn a = Inr r0" "predicate r0 = Inr False" by auto
  from Suc.prems(2) [of 0] have lt: "\<not> T \<le> e + cost a" by simp
  have step: "retryUntil_from fn predicate onTimeout T cost a e =
              retryUntil_from fn predicate onTimeout T cost (Suc a) (e + cost a + 250)"
    using r lt by (subst retryUntil_from.simps) simp
  have shift: "\<And>i. (\<Sum>j\<le>Suc i. cost (a + j)) = cost a + (\<Sum>j\<le>i. cost (Suc a + j))"
    by (simp add: sum.atMost_Suc_shift del: sum.atMost_Suc)
  have 1: "\<exists>r. fn (Suc a + i) = Inr r \<and> predicate r = Inr False" if "i < n" for i
    using Suc.prems(1) [of "Suc i"] that by simp
  have 2: "(e + cost a + 250) + (\<Sum>j\<le>i. cost (Suc a + j)) + 250 * i < T" if "i < n" for i
    using Suc.prems(2) [of "Suc i"] that by (simp add: shift del: sum.atMost_Suc)
  have 3: "fn (Suc a + n) = Inr r" using Suc.prems(3) by simp
  from Suc.IH [OF 1 2 3 Suc.prems(4)] step show ?case by simp
qed

text \<open>The poller returns the snapshot of the first tick that succeeds, provided the
  timeout has not elapsed at an earlier tick.\<close>

lemma poller_returns:
  assumes "\<And>i. i < n \<Longrightarrow> \<exists>raw. inspectFn i = Inr raw
        \<and> allPortsExposed wanted \<lparr>inspectResult = raw, mappedInspectResult = mapInspectResult raw\<rparr> = Inr False"
    and "\<And>i. i < n \<Longrightarrow> tick_time cost i < timeout_or_default timeout"
    and "inspectFn n = Inr raw"
    and "allPortsExposed wanted \<lparr>inspectResult = raw, mappedInspectResult = mapInspectResult raw\<rparr> = Inr True"
  shows "inspectContainerUntilPortsExposed inspectFn mapInspectResult wanted containerId timeout cost
         = \<lparr>inspectCalls = Suc n, errorLog = [],
            outcome = Inr \<lparr>inspectResult = raw, mappedInspectResult = mapInspectResult raw\<rparr>\<rparr>"
proof -
  let ?fn = "\<lambda>attempt. case inspectFn attempt of
                    Inl e \<Rightarrow> Inl e
                  | Inr r \<Rightarrow> Inr \<lparr>inspectResult = r, mappedInspectResult = mapInspectResult r\<rparr>"
  let ?msg = "''Container did not expose all ports after starting''"
  let ?r = "\<lparr>inspectResult = raw, mappedInspectResult = mapInspectResult raw\<rparr>"
  have 1: "\<And>i. i < n \<Longrightarrow> \<exists>r. ?fn (0 + i) = Inr r \<and> allPortsExposed wanted r = Inr False"
    using assms(1) by fastforce
  have 2: "\<And>i. i < n \<Longrightarrow> 0 + (\<Sum>j\<le>i. cost (0 + j)) + 250 * i < timeout_or_default timeout"
    using assms(2) by (simp add: tick_time_def)
  have 3: "?fn (0 + n) = Inr ?r"
    using assms(3) by simp
  have "retryUntil ?fn (allPortsExposed wanted) ((?msg, containerId), Error ?msg)
            (timeout_or_default timeout) cost = (Suc n, Returned ?r)"
    unfolding retryUntil_def
    using retryUntil_from_returns [where a = 0 and e = 0 and n = n and fn = ?fn
          and predicate = "allPortsExposed wanted" and cost = cost
          and T = "timeout_or_default timeout", OF 1 2 3 assms(4)]
    by simp
  then show ?thesis
    by (simp add: inspectContainerUntilPortsExposed_def Let_def)
qed

lemma retryUntil_from_Returned:
  "retryUntil_from fn predicate onTimeout T cost a e = (c, Returned r) \<Longrightarrow>
   \<exists>n. c = Suc (a + n) \<and> fn (a + n) = Inr r \<and> predicate r = Inr True
       \<and> (\<forall>i<n. \<exists>r'. fn (a + i) = Inr r' \<and> predicate r' = Inr False)"
proof (induction fn predicate onTimeout T cost a e rule: retryUntil_from.induct)
  case (1 fn predicate onTimeout timeoutMs cost attempt elapsed)
  from "1.prems" obtain r0 ok where r0: "fn attempt = Inr r0" "predicate r0 = Inr ok"
    by (subst (asm) retryUntil_from.simps) (auto split: sum.splits)
  show ?case
  proof (cases ok)
    case True
    with "1.prems" r0 have "c = Suc attempt" "r = r0"
      by (subst (asm) retryUntil_from.simps, simp)+
    with r0 True show ?thesis
      by (intro exI [of _ 0]) simp
  next
    case False
    with "1.prems" r0 have nt: "\<not> timeoutMs \<le> elapsed + cost attempt"
      by (subst (asm) retryUntil_from.simps) (auto split: if_splits)
    with "1.prems" r0 False
    have rec: "retryUntil_from fn predicate onTimeout timeoutMs cost (Suc attempt)
                 (elapsed + cost attempt + 250) = (c, Returned r)"
      by (subst (asm) retryUntil_from.simps) simp
    from "1.IH" [OF r0 False nt rec] obtain n where n: "c = Suc (Suc attempt + n)"
        "fn (Suc attempt + n) = Inr r" "predicate r = Inr True"
        "\<forall>i<n. \<exists>r'. fn (Suc attempt + i) = Inr r' \<and> predicate r' = Inr False"
      by blast
    have "\<exists>r'. fn (attempt + i) = Inr r' \<and> predicate r' = Inr False" if "i < Suc n" for i
    proof (cases i)
      case 0
      with r0 False show ?thesis by simp
    next
      case (Suc j)
      with that n(4) show ?thesis by simp
    qed
    with n show ?thesis
      by (intro exI [of _ "Suc n"]) simp
  qed
qed

lemma tick_verdict_eq:
  "tick_verdict inspectFn mapInspectResult wanted n = Inr b \<longleftrightarrow>
   (\<exists>raw. inspectFn n = Inr raw
      \<and> allPortsExposed wanted \<lparr>inspectResult = raw, mappedInspectResult = mapInspectResult raw\<rparr> = Inr b)"
  by (auto simp: tick_verdict_def split: sum.splits)

lemma poller_Returned:
  assumes "outcome (inspectContainerUntilPortsExposed inspectFn mapInspectResult wanted containerId
              timeout cost) = Inr returned"
  shows "\<exists>n raw. inspectCalls (inspectContainerUntilPortsExposed inspectFn mapInspectResult wanted
                      containerId timeout cost) = Suc n
           \<and> inspectFn n = Inr raw
           \<and> returned = \<lparr>inspectResult = raw, mappedInspectResult = mapInspectResult raw\<rparr>
           \<and> tick_verdict inspectFn mapInspectResult wanted n = Inr True
           \<and> (\<forall>i<n. tick_verdict inspectFn mapInspectResult wanted i = Inr False)"
proof -
  let ?fn = "\<lambda>attempt. case inspectFn attempt of
                    Inl e \<Rightarrow> Inl e
                  | Inr r \<Rightarrow> Inr \<lparr>inspectResult = r, mappedInspectResult = mapInspectResult r\<rparr>"
  let ?msg = "''Container did not expose all ports after starting''"
  obtain c res where res: "retryUntil ?fn (allPortsExposed wanted) ((?msg, containerId), Error ?msg)
            (timeout_or_default timeout) cost = (c, res)"
    by (cases "retryUntil ?fn (allPortsExposed wanted) ((?msg, containerId), Error ?msg)
            (timeout_or_default timeout) cost")
  with assms have r: "res = Returned returned"
    by (cases res) (auto simp: inspectContainerUntilPortsExposed_def Let_def)
  with res have calls: "inspectCalls (inspectContainerUntilPortsExposed inspectFn mapInspectResult
      wanted containerId timeout cost) = c"
    by (simp add: inspectContainerUntilPortsExposed_def Let_def)
  from res r have "retryUntil_from ?fn (allPortsExposed wanted) ((?msg, containerId), Error ?msg)
            (timeout_or_default timeout) cost 0 0 = (c, Returned returned)"
    by (simp add: retryUntil_def)
  from retryUntil_from_Returned [OF this] obtain n where n: "c = Suc n"
      "?fn n = Inr returned" "allPortsExposed wanted returned = Inr True"
      "\<forall>i<n. \<exists>r'. ?fn i = Inr r' \<and> allPortsExposed wanted r' = Inr False"
    by auto
  from n(2) obtain raw where raw: "inspectFn n = Inr raw"
      "returned = \<lparr>inspectResult = raw, mappedInspectResult = mapInspectResult raw\<rparr>"
    by (auto split: sum.splits)
  have "tick_verdict inspectFn mapInspectResult wanted n = Inr True"
    using raw n(3) by (simp add: tick_verdict_def)
  moreover have "\<forall>i<n. tick_verdict inspectFn mapInspectResult wanted i = Inr False"
    using n(4) by (fastforce simp: tick_verdict_def split: sum.splits)
  ultimately show ?thesis
    using calls n(1) raw by blast
qed

lemmas tick_eval = tick_verdict_def allPortsExposed_def portExposed_def getContainerPort_examples
  getProtocol_examples number_toString_examples

text \<open>
  Claim C2.  On each tick the poller obtains one fresh snapshot and the tick succeeds
  exactly when every wanted port has a valid container port and this snapshot holds,
  under the key made of that container port, \<open>/\<close>, and the normalised protocol, a
  binding list that is not empty.  If the snapshot exposes a wanted container port
  under other protocols only, the tick does not succeed.  Nothing is carried from one
  tick to the next: when the poller returns, it returns the snapshot of its last
  tick, that tick succeeded on this snapshot alone, and every earlier tick failed;
  and the poller does return at the first tick that succeeds, unless the timeout had
  elapsed at an earlier tick.  In the witness the first snapshot exposes \<open>8080/tcp\<close>
  only, the second \<open>9090/udp\<close> only and the third both: for the wanted ports
  \<open>[8080, "9090/udp"]\<close> the poller returns at the third tick, and when no snapshot
  ever exposes both it times out.
\<close>

theorem tick_succeeds_iff:
  "(tick_verdict inspectFn mapInspectResult wanted n = Inr True \<longleftrightarrow>
      (\<exists>raw. inspectFn n = Inr raw
         \<and> (\<forall>w\<in>set wanted. \<exists>c bs. getContainerPort w = Inr c
               \<and> map_of (ports (mapInspectResult raw))
                    (number_toString c @ [CHR ''/''] @ getProtocol w) = Some bs
               \<and> bs \<noteq> [])))
   \<and> (inspectFn n = Inr raw \<and> w \<in> set wanted \<and> getContainerPort w = Inr c
        \<and> (\<forall>q bs. map_of (ports (mapInspectResult raw)) (number_toString c @ [CHR ''/''] @ q) = Some bs
                   \<and> bs \<noteq> [] \<longrightarrow> q \<noteq> getProtocol w)
       \<longrightarrow> tick_verdict inspectFn mapInspectResult wanted n \<noteq> Inr True)
   \<and> (outcome (inspectContainerUntilPortsExposed inspectFn mapInspectResult wanted containerId
                  timeout cost) = Inr returned
       \<longrightarrow> (\<exists>m raw'. inspectCalls (inspectContainerUntilPortsExposed inspectFn mapInspectResult wanted
                           containerId timeout cost) = Suc m
              \<and> inspectFn m = Inr raw'
              \<and> returned = \<lparr>inspectResult = raw', mappedInspectResult = mapInspectResult raw'\<rparr>
              \<and> tick_verdict inspectFn mapInspectResult wanted m = Inr True
              \<and> (\<forall>i<m. tick_verdict inspectFn mapInspectResult wanted i = Inr False)))
   \<and> ((\<forall>i<n. tick_verdict inspectFn mapInspectResult wanted i = Inr False
               \<and> tick_time cost i < timeout_or_default timeout)
        \<and> tick_verdict inspectFn mapInspectResult wanted n = Inr True
       \<longrightarrow> (\<exists>raw'. inspectFn n = Inr raw'
              \<and> inspectContainerUntilPortsExposed inspectFn mapInspectResult wanted containerId
                   timeout cost
                  = \<lparr>inspectCalls = Suc n, errorLog = [],
                     outcome = Inr \<lparr>inspectResult = raw',
                                    mappedInspectResult = mapInspectResult raw'\<rparr>\<rparr>))"
proof -
  have iff: "tick_verdict inspectFn mapInspectResult wanted n = Inr True \<longleftrightarrow>
      (\<exists>raw. inspectFn n = Inr raw
         \<and> (\<forall>w\<in>set wanted. \<exists>c bs. getContainerPort w = Inr c
               \<and> map_of (ports (mapInspectResult raw))
                    (number_toString c @ [CHR ''/''] @ getProtocol w) = Some bs
               \<and> bs \<noteq> []))"
    by (simp only: tick_verdict_eq allPortsExposed_def every_True_iff portExposed_True_iff)
       simp
  have mismatch: "tick_verdict inspectFn mapInspectResult wanted n \<noteq> Inr True"
    if "inspectFn n = Inr raw \<and> w \<in> set wanted \<and> getContainerPort w = Inr c
        \<and> (\<forall>q bs. map_of (ports (mapInspectResult raw)) (number_toString c @ [CHR ''/''] @ q) = Some bs
                   \<and> bs \<noteq> [] \<longrightarrow> q \<noteq> getProtocol w)"
    using that unfolding iff by fastforce
  have returns: "\<exists>raw'. inspectFn n = Inr raw'
              \<and> inspectContainerUntilPortsExposed inspectFn mapInspectResult wanted containerId
                   timeout cost
                  = \<lparr>inspectCalls = Suc n, errorLog = [],
                     outcome = Inr \<lparr>inspectResult = raw',
                                    mappedInspectResult = mapInspectResult raw'\<rparr>\<rparr>"
    if h: "(\<forall>i<n. tick_verdict inspectFn mapInspectResult wanted i = Inr False
               \<and> tick_time cost i < timeout_or_default timeout)
        \<and> tick_verdict inspectFn mapInspectResult wanted n = Inr True"
  proof -
    from h obtain raw' where raw': "inspectFn n = Inr raw'"
        "allPortsExposed wanted \<lparr>inspectResult = raw', mappedInspectResult = mapInspectResult raw'\<rparr> = Inr True"
      by (auto simp: tick_verdict_eq)
    have 1: "\<exists>raw. inspectFn i = Inr raw
        \<and> allPortsExposed wanted \<lparr>inspectResult = raw, mappedInspectResult = mapInspectResult raw\<rparr> = Inr False"
      if "i < n" for i using h that by (auto simp: tick_verdict_eq)
    have 2: "tick_time cost i < timeout_or_default timeout" if "i < n" for i
      using h that by blast
    from poller_returns [where inspectFn = inspectFn and mapInspectResult = mapInspectResult
        and wanted = wanted and cost = cost and timeout = timeout and n = n and raw = raw'
        and containerId = containerId, OF 1 2 raw'] raw'(1)
    show ?thesis by blast
  qed
  from iff mismatch returns poller_Returned [of inspectFn mapInspectResult wanted containerId timeout cost returned]
  show ?thesis by blast
qed

theorem tick_succeeds_iff_witness:
  "tick_verdict
      (\<lambda>n. Inr (if n = 0 then \<lparr>ports = [(''8080/tcp'', [\<lparr>hostIp = ''0.0.0.0'', hostPort = 45000\<rparr>])]\<rparr>
                else if n = 1 then \<lparr>ports = [(''9090/udp'', [\<lparr>hostIp = ''0.0.0.0'', hostPort = 46000\<rparr>])]\<rparr>
                else \<lparr>ports = [(''8080/tcp'', [\<lparr>hostIp = ''0.0.0.0'', hostPort = 45000\<rparr>]),
                               (''9090/udp'', [\<lparr>hostIp = ''0.0.0.0'', hostPort = 46000\<rparr>])]\<rparr>))
      (\<lambda>raw. raw) [PortNumber 8080, PortString ''9090/udp''] 0 = Inr False
   \<and> tick_verdict
      (\<lambda>n. Inr (if n = 0 then \<lparr>ports = [(''8080/tcp'', [\<lparr>hostIp = ''0.0.0.0'', hostPort = 45000\<rparr>])]\<rparr>
                else if n = 1 then \<lparr>ports = [(''9090/udp'', [\<lparr>hostIp = ''0.0.0.0'', hostPort = 46000\<rparr>])]\<rparr>
                else \<lparr>ports = [(''8080/tcp'', [\<lparr>hostIp = ''0.0.0.0'', hostPort = 45000\<rparr>]),
                               (''9090/udp'', [\<lparr>hostIp = ''0.0.0.0'', hostPort = 46000\<rparr>])]\<rparr>))
      (\<lambda>raw. raw) [PortNumber 8080, PortString ''9090/udp''] 1 = Inr False
   \<and> tick_verdict
      (\<lambda>n. Inr (if n = 0 then \<lparr>ports = [(''8080/tcp'', [\<lparr>hostIp = ''0.0.0.0'', hostPort = 45000\<rparr>])]\<rparr>
                else if n = 1 then \<lparr>ports = [(''9090/udp'', [\<lparr>hostIp = ''0.0.0.0'', hostPort = 46000\<rparr>])]\<rparr>
                else \<lparr>ports = [(''8080/tcp'', [\<lparr>hostIp = ''0.0.0.0'', hostPort = 45000\<rparr>]),
                               (''9090/udp'', [\<lparr>hostIp = ''0.0.0.0'', hostPort = 46000\<rparr>])]\<rparr>))
      (\<lambda>raw. raw) [PortNumber 8080, PortString ''9090/udp''] 2 = Inr True
   \<and> inspectContainerUntilPortsExposed
      (\<lambda>n. Inr (if n = 0 then \<lparr>ports = [(''8080/tcp'', [\<lparr>hostIp = ''0.0.0.0'', hostPort = 45000\<rparr>])]\<rparr>
                else if n = 1 then \<lparr>ports = [(''9090/udp'', [\<lparr>hostIp = ''0.0.0.0'', hostPort = 46000\<rparr>])]\<rparr>
                else \<lparr>ports = [(''8080/tcp'', [\<lparr>hostIp = ''0.0.0.0'', hostPort = 45000\<rparr>]),
                               (''9090/udp'', [\<lparr>hostIp = ''0.0.0.0'', hostPort = 46000\<rparr>])]\<rparr>))
      (\<lambda>raw. raw) [PortNumber 8080, PortString ''9090/udp''] ''container-id'' None (\<lambda>n. 0)
     = \<lparr>inspectCalls = 3, errorLog = [],
        outcome = Inr \<lparr>inspectResult =
                         \<lparr>ports = [(''8080/tcp'', [\<lparr>hostIp = ''0.0.0.0'', hostPort = 45000\<rparr>]),
                                   (''9090/udp'', [\<lparr>hostIp = ''0.0.0.0'', hostPort = 46000\<rparr>])]\<rparr>,
                       mappedInspectResult =
                         \<lparr>ports = [(''8080/tcp'', [\<lparr>hostIp = ''0.0.0.0'', hostPort = 45000\<rparr>]),
                                   (''9090/udp'', [\<lparr>hostIp = ''0.0.0.0'', hostPort = 46000\<rparr>])]\<rparr>\<rparr>\<rparr>
   \<and> outcome (inspectContainerUntilPortsExposed
      (\<lambda>n. Inr (if n = 0 then \<lparr>ports = [(''8080/tcp'', [\<lparr>hostIp = ''0.0.0.0'', hostPort = 45000\<rparr>])]\<rparr>
                else \<lparr>ports = [(''9090/udp'', [\<lparr>hostIp = ''0.0.0.0'', hostPort = 46000\<rparr>])]\<rparr>))
      (\<lambda>raw. raw) [PortNumber 8080, PortString ''9090/udp''] ''container-id'' (Some 500) (\<lambda>n. 0))
     = Inl (Error ''Container did not expose all ports after starting'')
   \<and> tick_verdict
      (\<lambda>n. Inr \<lparr>ports = [(''8080/tcp'', [\<lparr>hostIp = ''0.0.0.0'', hostPort = 45000\<rparr>])]\<rparr>)
      (\<lambda>raw. raw) [PortString ''8080/udp''] 0 \<noteq> Inr True"
proof -
  let ?tcp = "\<lparr>ports = [(''8080/tcp'', [\<lparr>hostIp = ''0.0.0.0'', hostPort = 45000\<rparr>])]\<rparr>"
  let ?udp = "\<lparr>ports = [(''9090/udp'', [\<lparr>hostIp = ''0.0.0.0'', hostPort = 46000\<rparr>])]\<rparr>"
  let ?both = "\<lparr>ports = [(''8080/tcp'', [\<lparr>hostIp = ''0.0.0.0'', hostPort = 45000\<rparr>]),
                          (''9090/udp'', [\<lparr>hostIp = ''0.0.0.0'', hostPort = 46000\<rparr>])]\<rparr>"
  let ?gradual = "\<lambda>n::nat. (Inr (if n = 0 then ?tcp else if n = 1 then ?udp else ?both)
                     :: error + InspectResult)"
  let ?never = "\<lambda>n::nat. (Inr (if n = 0 then ?tcp else ?udp) :: error + InspectResult)"
  let ?wanted = "[PortNumber 8080, PortString ''9090/udp'']"
  have v0: "tick_verdict ?gradual (\<lambda>raw. raw) ?wanted 0 = Inr False"
    by (simp add: tick_eval)
  have v1: "tick_verdict ?gradual (\<lambda>raw. raw) ?wanted 1 = Inr False"
    by (simp add: tick_eval)
  have v2: "tick_verdict ?gradual (\<lambda>raw. raw) ?wanted 2 = Inr True"
    using tick_succeeds_iff [of ?gradual "\<lambda>raw. raw" ?wanted 2]
    by (simp add: getContainerPort_examples getProtocol_examples number_toString_examples)
  have early: "\<forall>i<2. tick_verdict ?gradual (\<lambda>raw. raw) ?wanted i = Inr False
                 \<and> tick_time (\<lambda>n. 0) i < timeout_or_default None"
    using v0 v1 by (auto simp: numeral_2_eq_2 less_Suc_eq tick_time_def timeout_or_default_def)
  from tick_succeeds_iff [of ?gradual "\<lambda>raw. raw" ?wanted 2 _ _ _ "''container-id''" None "\<lambda>n. 0"]
    early v2
  have run: "inspectContainerUntilPortsExposed ?gradual (\<lambda>raw. raw) ?wanted ''container-id'' None (\<lambda>n. 0)
     = \<lparr>inspectCalls = 3, errorLog = [],
        outcome = Inr \<lparr>inspectResult = ?both, mappedInspectResult = ?both\<rparr>\<rparr>"
    by (auto simp: numeral_3_eq_3)
  have never: "outcome (inspectContainerUntilPortsExposed ?never (\<lambda>raw. raw) ?wanted ''container-id''
                  (Some 500) (\<lambda>n. 0))
     = Inl (Error ''Container did not expose all ports after starting'')"
    by (simp add: inspectContainerUntilPortsExposed_def retryUntil_def retryUntil_from.simps
        allPortsExposed_def portExposed_def getContainerPort_examples getProtocol_examples
        number_toString_examples timeout_or_default_def Let_def)
  have mismatch: "tick_verdict (\<lambda>n. Inr ?tcp) (\<lambda>raw. raw) [PortString ''8080/udp''] 0 \<noteq> Inr True"
    using tick_succeeds_iff [of "\<lambda>n. Inr ?tcp" "\<lambda>raw. raw" "[PortString ''8080/udp'']" 0 ?tcp
        "PortString ''8080/udp''" 8080]
    by (simp add: getContainerPort_examples getProtocol_examples number_toString_examples)
  from v0 v1 v2 run never mismatch show ?thesis by simp
qed

lemma allPortsExposed_nothing:
  "allPortsExposed [PortNumber 8080] \<lparr>inspectResult = (), mappedInspectResult = \<lparr>ports = []\<rparr>\<rparr> = Inr False"
  by (simp add: allPortsExposed_def portExposed_def getContainerPort_def positive_port_def)

text \<open>
  Claim C7, as amended.  If every tick fails up to the first one whose timeout check
  finds the timeout elapsed, the operation fails after that tick with the error
  \<open>Container did not expose all ports after starting\<close>.  The error carries this fixed
  message and nothing else; the container identifier goes to \<open>log.error\<close>, together
  with the message.  With a timeout of zero the operation fails right after a failing
  first tick: \<open>inspectFn\<close> is called once.  The counterexample runs the operation for
  two different container identifiers and gets one and the same error.
\<close>

theorem poller_times_out:
  "((\<forall>i\<le>n. \<exists>raw. inspectFn i = Inr raw
        \<and> allPortsExposed wanted \<lparr>inspectResult = raw, mappedInspectResult = mapInspectResult raw\<rparr> = Inr False)
     \<and> (\<forall>i<n. tick_time cost i < timeout_or_default timeout)
     \<and> timeout_or_default timeout \<le> tick_time cost n
     \<longrightarrow> inspectContainerUntilPortsExposed inspectFn mapInspectResult wanted containerId timeout cost
         = \<lparr>inspectCalls = Suc n,
            errorLog = [(''Container did not expose all ports after starting'', containerId)],
            outcome = Inl (Error ''Container did not expose all ports after starting'')\<rparr>)
   \<and> ((\<exists>raw. inspectFn 0 = Inr raw
        \<and> allPortsExposed wanted \<lparr>inspectResult = raw, mappedInspectResult = mapInspectResult raw\<rparr> = Inr False)
     \<longrightarrow> inspectContainerUntilPortsExposed inspectFn mapInspectResult wanted containerId (Some 0) cost
         = \<lparr>inspectCalls = 1,
            errorLog = [(''Container did not expose all ports after starting'', containerId)],
            outcome = Inl (Error ''Container did not expose all ports after starting'')\<rparr>)"
proof -
  let ?fn = "\<lambda>attempt. case inspectFn attempt of
                    Inl e \<Rightarrow> Inl e
                  | Inr r \<Rightarrow> Inr \<lparr>inspectResult = r, mappedInspectResult = mapInspectResult r\<rparr>"
  let ?msg = "''Container did not expose all ports after starting''"
  have general: "inspectContainerUntilPortsExposed inspectFn mapInspectResult wanted containerId t cost
         = \<lparr>inspectCalls = Suc m, errorLog = [(?msg, containerId)], outcome = Inl (Error ?msg)\<rparr>"
    if fails: "\<forall>i\<le>m. \<exists>raw. inspectFn i = Inr raw
        \<and> allPortsExposed wanted \<lparr>inspectResult = raw, mappedInspectResult = mapInspectResult raw\<rparr> = Inr False"
      and early: "\<forall>i<m. tick_time cost i < timeout_or_default t"
      and late: "timeout_or_default t \<le> tick_time cost m"
    for m t
  proof -
    have 1: "\<And>i. i \<le> m \<Longrightarrow> \<exists>r. ?fn (0 + i) = Inr r \<and> allPortsExposed wanted r = Inr False"
      using fails by fastforce
    have 2: "\<And>i. i < m \<Longrightarrow> 0 + (\<Sum>j\<le>i. cost (0 + j)) + 250 * i < timeout_or_default t"
      using early by (simp add: tick_time_def)
    have 3: "timeout_or_default t \<le> 0 + (\<Sum>j\<le>m. cost (0 + j)) + 250 * m"
      using late by (simp add: tick_time_def)
    have "retryUntil ?fn (allPortsExposed wanted) ((?msg, containerId), Error ?msg)
            (timeout_or_default t) cost = (Suc m, TimedOut ((?msg, containerId), Error ?msg))"
      unfolding retryUntil_def
      using retryUntil_from_times_out [where a = 0 and e = 0 and n = m and fn = ?fn
          and predicate = "allPortsExposed wanted" and cost = cost
          and T = "timeout_or_default t", OF 1 2 3]
      by simp
    then show ?thesis
      by (simp add: inspectContainerUntilPortsExposed_def Let_def)
  qed
  show ?thesis
  proof (intro conjI impI)
    assume "(\<forall>i\<le>n. \<exists>raw. inspectFn i = Inr raw
        \<and> allPortsExposed wanted \<lparr>inspectResult = raw, mappedInspectResult = mapInspectResult raw\<rparr> = Inr False)
     \<and> (\<forall>i<n. tick_time cost i < timeout_or_default timeout)
     \<and> timeout_or_default timeout \<le> tick_time cost n"
    then show "inspectContainerUntilPortsExposed inspectFn mapInspectResult wanted containerId timeout cost
         = \<lparr>inspectCalls = Suc n, errorLog = [(?msg, containerId)], outcome = Inl (Error ?msg)\<rparr>"
      using general [of n timeout] by blast
  next
    assume "\<exists>raw. inspectFn 0 = Inr raw
        \<and> allPortsExposed wanted \<lparr>inspectResult = raw, mappedInspectResult = mapInspectResult raw\<rparr> = Inr False"
    then show "inspectContainerUntilPortsExposed inspectFn mapInspectResult wanted containerId (Some 0) cost
         = \<lparr>inspectCalls = 1, errorLog = [(?msg, containerId)], outcome = Inl (Error ?msg)\<rparr>"
      using general [of 0 "Some 0"] by (simp add: timeout_or_default_def)
  qed
qed

theorem poller_times_out_witness:
  "inspectContainerUntilPortsExposed (\<lambda>n. Inr ()) (\<lambda>raw. \<lparr>ports = []\<rparr>) [PortNumber 8080]
      ''container-id'' (Some 500) (\<lambda>n. 0)
     = \<lparr>inspectCalls = 3,
        errorLog = [(''Container did not expose all ports after starting'', ''container-id'')],
        outcome = Inl (Error ''Container did not expose all ports after starting'')\<rparr>
   \<and> inspectContainerUntilPortsExposed (\<lambda>n. Inr ()) (\<lambda>raw. \<lparr>ports = []\<rparr>) [PortNumber 8080]
      ''container-id'' (Some 0) (\<lambda>n. 0)
     = \<lparr>inspectCalls = 1,
        errorLog = [(''Container did not expose all ports after starting'', ''container-id'')],
        outcome = Inl (Error ''Container did not expose all ports after starting'')\<rparr>"
proof -
  have early: "\<forall>i<2. tick_time (\<lambda>n. 0) i < timeout_or_default (Some 500)"
    by (auto simp: tick_time_def timeout_or_default_def)
  have late: "timeout_or_default (Some 500) \<le> tick_time (\<lambda>n. 0) 2"
    by (simp add: tick_time_def timeout_or_default_def)
  from poller_times_out [of 2 "\<lambda>n. Inr ()" "[PortNumber 8080]" "\<lambda>raw. \<lparr>ports = []\<rparr>" "\<lambda>n. 0"
      "Some 500" "''container-id''"] early late allPortsExposed_nothing
  show ?thesis
    by (simp add: numeral_3_eq_3)
qed

theorem poller_error_counterexample:
  "outcome (inspectContainerUntilPortsExposed (\<lambda>n. Inr ()) (\<lambda>raw. \<lparr>ports = []\<rparr>) [PortNumber 8080]
      ''container-a'' (Some 0) (\<lambda>n. 0))
     = Inl (Error ''Container did not expose all ports after starting'')
   \<and> outcome (inspectContainerUntilPortsExposed (\<lambda>n. Inr ()) (\<lambda>raw. \<lparr>ports = []\<rparr>) [PortNumber 8080]
      ''container-b'' (Some 0) (\<lambda>n. 0))
     = Inl (Error ''Container did not expose all ports after starting'')
   \<and> ''container-a'' \<noteq> ''container-b''"
  by (simp add: inspectContainerUntilPortsExposed_def retryUntil_def retryUntil_from.simps
      allPortsExposed_nothing timeout_or_default_def Let_def)

end
